theory Spec2Isabelle
  imports Main "HOL-Library.AList"
begin

section \<open>Translation string lookup helpers (homeassistant/helpers/translation.py)\<close>

subsection \<open>Data model\<close>

text \<open>
  A Python \<open>dict\<close> with string keys is an association list in insertion order.
  \<open>d[k] = v\<close> is \<open>AList.update k v d\<close>: an existing key keeps its place and gets
  the new value, a new key goes to the end. \<open>d.update(e)\<close> stores the items of
  \<open>e\<close> one after the other, and \<open>d.get(k)\<close> is \<open>map_of d k\<close>.
\<close>

type_synonym 'v dict = "(string \<times> 'v) list"

definition dict_update :: "'v dict \<Rightarrow> 'v dict \<Rightarrow> 'v dict" where
  "dict_update d e = fold (\<lambda>(k, v) acc. AList.update k v acc) e d"

definition setdefault :: "string \<Rightarrow> 'v \<Rightarrow> 'v dict \<Rightarrow> 'v dict" where
  "setdefault k v d = (case map_of d k of None \<Rightarrow> AList.update k v d | Some _ \<Rightarrow> d)"

text \<open>
  What \<open>load_json\<close> can return: any JSON document. Numbers are integers here
  (JSON floats are left out). A translation tree is the dictionary under \<open>JDict\<close>.
\<close>

datatype json =
    JNull
  | JBool bool
  | JInt int
  | JStr string
  | JList "json list"
  | JDict "(string \<times> json) list"

type_synonym tree = "json dict"

text \<open>Python truth value of a JSON value, as used by \<open>x or {}\<close>.\<close>

fun truthy :: "json \<Rightarrow> bool" where
  "truthy JNull = False"
| "truthy (JBool b) = b"
| "truthy (JInt i) = (i \<noteq> 0)"
| "truthy (JStr s) = (s \<noteq> [])"
| "truthy (JList xs) = (xs \<noteq> [])"
| "truthy (JDict d) = (d \<noteq> [])"

datatype error =
    IntegrationNotFound string
  | LoadError string
  | AssertionError
  | KeyError string

subsection \<open>String helpers\<close>

text \<open>\<open>s.split(sep)\<close> for a one-character separator: never an empty list.\<close>

fun py_split :: "char \<Rightarrow> string \<Rightarrow> string list" where
  "py_split sep [] = ['''']"
| "py_split sep (c # cs) =
     (if c = sep then [] # py_split sep cs
      else (case py_split sep cs of
              [] \<Rightarrow> [c] # []
            | p # ps \<Rightarrow> (c # p) # ps))"

text \<open>\<open>s.split(sep, 1)\<close>: at most one cut, at the first separator.\<close>

definition py_split1 :: "char \<Rightarrow> string \<Rightarrow> string list" where
  "py_split1 sep s =
     (if sep \<in> set s
      then [takeWhile (\<lambda>c. c \<noteq> sep) s, tl (dropWhile (\<lambda>c. c \<noteq> sep) s)]
      else [s])"

subsection \<open>Paths and integrations\<close>

text \<open>
  \<open>Integration\<close> comes from \<open>homeassistant.loader\<close>; only \<open>file_path\<close> (a
  \<open>pathlib.Path\<close>) and \<open>name\<close> are read here. A path is a POSIX path of
  \<open>pathlib\<close>: a root (empty, \<open>/\<close> or \<open>//\<close>) and the components after it.
  \<open>path_of_string s\<close> is \<open>Path(s)\<close>: empty components and \<open>.\<close> are dropped,
  exactly two leading slashes are kept, any other number of them is one.
  \<open>path_div p s\<close> is \<open>p / s\<close>: an \<open>s\<close> that starts with \<open>/\<close> replaces \<open>p\<close>,
  any other \<open>s\<close> adds its components to those of \<open>p\<close>. \<open>path_name p\<close> is
  \<open>p.name\<close> and \<open>path_str p\<close> is \<open>str(p)\<close>.
\<close>

record path =
  path_root :: string
  path_parts :: "string list"

definition path_segments :: "string \<Rightarrow> string list" where
  "path_segments s = filter (\<lambda>x. x \<noteq> [] \<and> x \<noteq> ''.'') (py_split CHR ''/'' s)"

definition path_of_string :: "string \<Rightarrow> path" where
  "path_of_string s =
     \<lparr>path_root =
        (if s \<noteq> [] \<and> hd s = CHR ''/''
         then (if length (takeWhile (\<lambda>c. c = CHR ''/'') s) = 2 then ''//'' else ''/'')
         else []),
      path_parts = path_segments s\<rparr>"

definition path_div :: "path \<Rightarrow> string \<Rightarrow> path" where
  "path_div p s =
     (if s \<noteq> [] \<and> hd s = CHR ''/'' then path_of_string s
      else p\<lparr>path_parts := path_parts p @ path_segments s\<rparr>)"

definition path_name :: "path \<Rightarrow> string" where
  "path_name p = (if path_parts p = [] then [] else last (path_parts p))"

fun join_slash :: "string list \<Rightarrow> string" where
  "join_slash [] = []"
| "join_slash [s] = s"
| "join_slash (s # t # ss) = s @ ''/'' @ join_slash (t # ss)"

definition path_str :: "path \<Rightarrow> string" where
  "path_str p =
     (if path_root p = [] \<and> path_parts p = [] then ''.''
      else path_root p @ join_slash (path_parts p))"

record integration =
  file_path :: path
  name :: string

subsection \<open>recursive_flatten, flatten\<close>

text \<open>
  The \<open>for\<close> loop of \<open>recursive_flatten\<close> with its \<open>output\<close> dictionary as an
  accumulator; a nested dictionary is flattened by a fresh call (empty
  \<open>output\<close>) under the longer prefix.
\<close>

fun flatten_loop :: "string \<Rightarrow> json dict \<Rightarrow> (string \<times> json) list \<Rightarrow> json dict" where
  "flatten_loop prefix output [] = output"
| "flatten_loop prefix output ((key, JDict d) # rest) =
     flatten_loop prefix
       (dict_update output (flatten_loop (prefix @ key @ ''.'') [] d)) rest"
| "flatten_loop prefix output ((key, v) # rest) =
     flatten_loop prefix (AList.update (prefix @ key) v output) rest"

definition recursive_flatten :: "string \<Rightarrow> json dict \<Rightarrow> json dict" where
  "recursive_flatten prefix data = flatten_loop prefix [] data"

definition flatten :: "json dict \<Rightarrow> json dict" where
  "flatten data = recursive_flatten [] data"

subsection \<open>component_translation_file\<close>

definition component_translation_file :: "string \<Rightarrow> string \<Rightarrow> integration \<Rightarrow> string option" where
  "component_translation_file component language integ =
     (let parts = py_split CHR ''.'' component;
          domain = last parts;
          is_platform = (length parts = 2)
      in if is_platform
         then Some (path_str (path_div (path_div (file_path integ) ''.translations'')
                      (hd parts @ ''.'' @ language @ ''.json'')))
         else if path_name (file_path integ) \<noteq> domain then None
         else Some (path_str (path_div (path_div (file_path integ) ''.translations'')
                      (language @ ''.json''))))"

subsection \<open>load_translations_files\<close>

text \<open>
  \<open>load_json\<close> (homeassistant.util.json) is a parameter: \<open>Inl e\<close> is the
  exception it raises, \<open>Inr j\<close> the parsed document. The loop stops at the first
  failure; the first component of the result lists the files it asked for, in
  order, the second is the exception or the \<open>loaded\<close> dictionary.
\<close>

fun load_loop ::
  "(string \<Rightarrow> error + json) \<Rightarrow> tree dict \<Rightarrow> (string \<times> string) list
     \<Rightarrow> string list \<times> (error + tree dict)" where
  "load_loop load_json loaded [] = ([], Inr loaded)"
| "load_loop load_json loaded ((component, translation_file) # rest) =
     (case load_json translation_file of
        Inl e \<Rightarrow> ([translation_file], Inl e)
      | Inr loaded_json \<Rightarrow>
          (case loaded_json of
             JDict d \<Rightarrow>
               (case load_loop load_json (AList.update component d loaded) rest of
                  (asked, r) \<Rightarrow> (translation_file # asked, r))
           | _ \<Rightarrow> ([translation_file], Inl AssertionError)))"

definition load_translations_files ::
  "(string \<Rightarrow> error + json) \<Rightarrow> string dict \<Rightarrow> string list \<times> (error + tree dict)" where
  "load_translations_files load_json translation_files =
     load_loop load_json [] translation_files"

subsection \<open>build_resources\<close>

text \<open>
  A Python \<open>set\<close> of component ids is the list of its elements in the order in
  which the set is iterated.
\<close>

definition component_domain :: "string \<Rightarrow> string" where
  "component_domain component =
     (if CHR ''.'' \<notin> set component then component
      else hd (py_split1 CHR ''.'' component))"

fun build_loop :: "tree dict \<Rightarrow> tree dict \<Rightarrow> string list \<Rightarrow> error + tree dict" where
  "build_loop translation_cache resources [] = Inr resources"
| "build_loop translation_cache resources (component # rest) =
     (let domain = component_domain component;
          resources1 = (if map_of resources domain = None
                        then AList.update domain [] resources else resources)
      in case map_of resources1 domain of
           None \<Rightarrow> Inl (KeyError domain)
         | Some cur \<Rightarrow>
             (case map_of translation_cache component of
                None \<Rightarrow> Inl (KeyError component)
              | Some t \<Rightarrow>
                  build_loop translation_cache
                    (AList.update domain (dict_update cur t) resources1) rest))"

definition build_resources :: "tree dict \<Rightarrow> string list \<Rightarrow> error + tree dict" where
  "build_resources translation_cache components = build_loop translation_cache [] components"

subsection \<open>async_get_component_resources\<close>

text \<open>
  The part of the host application that the module reads and writes.
  \<open>registry\<close> is \<open>async_get_integration\<close> and \<open>files\<close> is \<open>load_json\<close>,
  both parameters (\<open>Inl\<close> the exception raised). \<open>cache\<close> is
  \<open>hass.data[TRANSLATION_STRING_CACHE]\<close>, language to component to tree, empty
  while the key is absent; \<open>lock\<close> says whether
  \<open>hass.data[TRANSLATION_LOAD_LOCK]\<close> exists. \<open>resolutions\<close> and \<open>loads\<close>
  record the calls made to \<open>async_get_integration\<close> and to \<open>load_json\<close>.
\<close>

record hass =
  config_components :: "string list"
  config_flows :: "string list"
  registry :: "string \<Rightarrow> error + integration"
  files :: "string \<Rightarrow> error + json"
  cache :: "tree dict dict"
  lock :: bool
  resolutions :: "string list"
  loads :: "string list"

text \<open>\<open>asyncio.gather\<close> over the integration look-ups: the first failure is raised.\<close>

fun gather_integrations ::
  "(string \<Rightarrow> error + integration) \<Rightarrow> string list \<Rightarrow> error + integration list" where
  "gather_integrations get [] = Inr []"
| "gather_integrations get (domain # rest) =
     (case get domain of
        Inl e \<Rightarrow> Inl e
      | Inr i \<Rightarrow>
          (case gather_integrations get rest of
             Inl e \<Rightarrow> Inl e
           | Inr found \<Rightarrow> Inr (i # found)))"

text \<open>
  The loop that determines the paths of the missing components. It returns the
  language's cache partition, with the empty trees it stored, also when it
  raises.
\<close>

fun paths_loop ::
  "string \<Rightarrow> integration dict \<Rightarrow> tree dict \<Rightarrow> string dict \<Rightarrow> string list
     \<Rightarrow> tree dict \<times> (error + string dict)" where
  "paths_loop language missing_integrations translation_cache missing_files [] =
     (translation_cache, Inr missing_files)"
| "paths_loop language missing_integrations translation_cache missing_files (loaded # rest) =
     (let parts = py_split CHR ''.'' loaded;
          domain = last parts
      in case map_of missing_integrations domain of
           None \<Rightarrow> (translation_cache, Inl (KeyError domain))
         | Some integ \<Rightarrow>
             (case component_translation_file loaded language integ of
                None \<Rightarrow>
                  paths_loop language missing_integrations
                    (AList.update loaded [] translation_cache) missing_files rest
              | Some p \<Rightarrow>
                  paths_loop language missing_integrations translation_cache
                    (AList.update loaded p missing_files) rest))"

text \<open>Translations that miss \<open>title\<close> get the integration's name put in.\<close>

fun backfill_titles :: "integration dict \<Rightarrow> (string \<times> tree) list \<Rightarrow> error + tree dict" where
  "backfill_titles missing_integrations [] = Inr []"
| "backfill_titles missing_integrations ((loaded, translations) # rest) =
     (if CHR ''.'' \<in> set loaded \<or> map_of translations ''title'' \<noteq> None
      then (case backfill_titles missing_integrations rest of
              Inl e \<Rightarrow> Inl e
            | Inr done \<Rightarrow> Inr ((loaded, translations) # done))
      else (case map_of missing_integrations loaded of
              None \<Rightarrow> Inl (KeyError loaded)
            | Some integ \<Rightarrow>
                (case backfill_titles missing_integrations rest of
                   Inl e \<Rightarrow> Inl e
                 | Inr done \<Rightarrow>
                     Inr ((loaded, AList.update ''title'' (JStr (name integ)) translations)
                            # done))))"

definition partition_of :: "tree dict dict \<Rightarrow> string \<Rightarrow> tree dict" where
  "partition_of c language = (case map_of c language of None \<Rightarrow> [] | Some tc \<Rightarrow> tc)"

text \<open>
  Lines 117 to 165: everything before the call of \<open>build_resources\<close>. The result
  is the state afterwards and either the exception raised or the language's
  partition \<open>translation_cache\<close>.
\<close>

definition cache_fill :: "hass \<Rightarrow> string \<Rightarrow> string list \<Rightarrow> hass \<times> (error + tree dict)" where
  "cache_fill h language components =
     (let cache0 = setdefault language [] (cache h);
          translation_cache = partition_of cache0 language;
          missing_loaded = filter (\<lambda>c. map_of translation_cache c = None) components;
          missing_domains = remdups (map (\<lambda>loaded. last (py_split CHR ''.'' loaded)) missing_loaded);
          h1 = h\<lparr>cache := cache0, resolutions := resolutions h @ missing_domains\<rparr>
      in case gather_integrations (registry h) missing_domains of
           Inl e \<Rightarrow> (h1, Inl e)
         | Inr found \<Rightarrow>
             (let missing_integrations = zip missing_domains found
              in case paths_loop language missing_integrations translation_cache [] missing_loaded of
                   (tc1, r) \<Rightarrow>
                     (let h2 = h1\<lparr>cache := AList.update language tc1 cache0\<rparr>
                      in case r of
                           Inl e \<Rightarrow> (h2, Inl e)
                         | Inr missing_files \<Rightarrow>
                             if missing_files \<noteq> []
                             then (case load_translations_files (files h) missing_files of
                                     (asked, lr) \<Rightarrow>
                                       (let h3 = h2\<lparr>loads := loads h @ asked\<rparr>
                                        in case lr of
                                             Inl e \<Rightarrow> (h3, Inl e)
                                           | Inr loaded_translations \<Rightarrow>
                                               (case backfill_titles missing_integrations
                                                       loaded_translations of
                                                  Inl e \<Rightarrow> (h3, Inl e)
                                                | Inr titled \<Rightarrow>
                                                    (let tc2 = dict_update tc1 titled
                                                     in (h3\<lparr>cache := AList.update language tc2 cache0\<rparr>,
                                                         Inr tc2)))))
                             else (h2, Inr tc1))))"

definition async_get_component_resources ::
  "hass \<Rightarrow> string \<Rightarrow> string list \<Rightarrow> hass \<times> (error + tree dict)" where
  "async_get_component_resources h language components =
     (case cache_fill h language components of
        (h', Inl e) \<Rightarrow> (h', Inl e)
      | (h', Inr translation_cache) \<Rightarrow> (h', build_resources translation_cache components))"

subsection \<open>async_get_translations\<close>

text \<open>The dictionary comprehension that keeps one category of every domain.\<close>

definition narrow :: "string \<Rightarrow> tree dict \<Rightarrow> tree dict" where
  "narrow category resources =
     map (\<lambda>(domain, t).
            (domain,
             [(category,
               (case map_of t category of
                  None \<Rightarrow> JDict []
                | Some v \<Rightarrow> if truthy v then v else JDict []))]))
         resources"

text \<open>\<open>flatten({"component": resources})\<close>, after the optional narrowing.\<close>

definition flat_resources :: "string option \<Rightarrow> tree dict \<Rightarrow> json dict" where
  "flat_resources category resources =
     flatten
       [(''component'',
         JDict (map (\<lambda>(domain, t). (domain, JDict t))
                  (case category of None \<Rightarrow> resources | Some c \<Rightarrow> narrow c resources)))]"

text \<open>\<open>a | b\<close> on sets of component ids.\<close>

definition set_union :: "string list \<Rightarrow> string list \<Rightarrow> string list" where
  "set_union a b = a @ filter (\<lambda>x. x \<notin> set a) b"

text \<open>Lines 184 to 189: which components are asked for.\<close>

definition select_components :: "hass \<Rightarrow> string option \<Rightarrow> bool option \<Rightarrow> string list" where
  "select_components h integ config_flow =
     (case integ of
        Some i \<Rightarrow> [i]
      | None \<Rightarrow>
          if config_flow = Some True
          then set_union (config_components h) (config_flows h)
          else config_components h)"

text \<open>
  The two fetches gathered under the lock work on the partitions of two
  different languages; they are run one after the other, the requested language
  first. When one of them raises, the other still runs to its end.
\<close>

definition async_get_translations ::
  "hass \<Rightarrow> string \<Rightarrow> string option \<Rightarrow> string option \<Rightarrow> bool option
     \<Rightarrow> hass \<times> (error + json dict)" where
  "async_get_translations h language category integ config_flow =
     (let components = select_components h integ config_flow;
          h0 = h\<lparr>lock := True\<rparr>
      in case async_get_component_resources h0 language components of
           (h1, r0) \<Rightarrow>
             if language \<noteq> ''en''
             then (case async_get_component_resources h1 ''en'' components of
                     (h2, r1) \<Rightarrow>
                       (case r0 of
                          Inl e \<Rightarrow> (h2, Inl e)
                        | Inr resources \<Rightarrow>
                            (case r1 of
                               Inl e \<Rightarrow> (h2, Inl e)
                             | Inr base_resources \<Rightarrow>
                                 (h2, Inr (dict_update (flat_resources category base_resources)
                                             (flat_resources category resources))))))
             else (case r0 of
                     Inl e \<Rightarrow> (h1, Inl e)
                   | Inr resources \<Rightarrow> (h1, Inr (flat_resources category resources))))"

subsection \<open>Leaves and dotted paths\<close>

text \<open>
  The words of the specification of \<open>flatten\<close>. \<open>keys_ok\<close>: at every level the
  keys of a dictionary are distinct (as in any Python \<open>dict\<close>) and contain no
  \<open>.\<close>. \<open>leaves\<close> counts the values that are not dictionaries, \<open>leaf_paths\<close>
  lists each of them with the keys of its ancestors, outermost first, and
  \<open>dotted\<close> joins a path with \<open>.\<close>.
\<close>

fun keys_ok :: "json \<Rightarrow> bool" where
  "keys_ok (JDict d) =
     (distinct (map fst d) \<and> (\<forall>p \<in> set d. CHR ''.'' \<notin> set (fst p) \<and> keys_ok (snd p)))"
| "keys_ok v = True"

fun leaves :: "json \<Rightarrow> nat" where
  "leaves (JDict d) = sum_list (map (\<lambda>p. leaves (snd p)) d)"
| "leaves v = 1"

fun leaf_paths :: "json \<Rightarrow> (string list \<times> json) list" where
  "leaf_paths (JDict d) =
     concat (map (\<lambda>e. map (\<lambda>l. (fst e # fst l, snd l)) (leaf_paths (snd e))) d)"
| "leaf_paths v = [([], v)]"

fun dotted :: "string list \<Rightarrow> string" where
  "dotted [] = []"
| "dotted [k] = k"
| "dotted (k # p) = k @ ''.'' @ dotted p"

definition leaf_entries :: "string \<Rightarrow> json dict \<Rightarrow> json dict" where
  "leaf_entries prefix data =
     map (\<lambda>l. (prefix @ dotted (fst l), snd l)) (leaf_paths (JDict data))"

subsection \<open>Domains and their trees\<close>

text \<open>
  The words of the specification of \<open>build_resources\<close>: the domain of an id is
  the substring before its first \<open>.\<close>, or the whole id; the tree of a domain
  accumulates, by \<open>dict.update\<close>, the cached trees of the requested ids of that
  domain.
\<close>

definition before_first_dot :: "string \<Rightarrow> string" where
  "before_first_dot s = takeWhile (\<lambda>c. c \<noteq> CHR ''.'') s"

definition tree_of :: "tree dict \<Rightarrow> string \<Rightarrow> tree" where
  "tree_of translation_cache component =
     (case map_of translation_cache component of None \<Rightarrow> [] | Some t \<Rightarrow> t)"

definition domain_tree :: "tree dict \<Rightarrow> string \<Rightarrow> string list \<Rightarrow> tree" where
  "domain_tree translation_cache d components =
     fold (\<lambda>c acc. if before_first_dot c = d
                    then dict_update acc (tree_of translation_cache c) else acc)
          components []"

text \<open>\<open>resources.get(d, {})\<close> and \<open>resources[d][k]\<close>.\<close>

definition current :: "tree dict \<Rightarrow> string \<Rightarrow> tree" where
  "current resources d = (case map_of resources d of None \<Rightarrow> [] | Some t \<Rightarrow> t)"

text \<open>
  Two requested ids of one domain never give different values to one key; and
  the cached trees of the requested ids have distinct keys, as Python
  dictionaries do.
\<close>

definition agree_on_shared_keys :: "tree dict \<Rightarrow> string list \<Rightarrow> bool" where
  "agree_on_shared_keys translation_cache components =
     (\<forall>c1 \<in> set components. \<forall>c2 \<in> set components.
        before_first_dot c1 = before_first_dot c2 \<longrightarrow>
          (\<forall>k \<in> fst ` set (tree_of translation_cache c1).
             map_of (tree_of translation_cache c2) k = None
             \<or> map_of (tree_of translation_cache c2) k = map_of (tree_of translation_cache c1) k))"

definition trees_are_dicts :: "tree dict \<Rightarrow> string list \<Rightarrow> bool" where
  "trees_are_dicts translation_cache components =
     (\<forall>c \<in> set components. distinct (map fst (tree_of translation_cache c)))"

definition lookup2 :: "tree dict \<Rightarrow> string \<Rightarrow> string \<Rightarrow> json option" where
  "lookup2 resources d k = (case map_of resources d of None \<Rightarrow> None | Some t \<Rightarrow> map_of t k)"

subsection \<open>Reading the cache, and what a call finds missing\<close>

text \<open>
  \<open>cache_lookup c language component\<close> is \<open>c[language][component]\<close>, \<open>None\<close>
  when either key is absent. \<open>last_segment\<close> is \<open>loaded.split(".")[-1]\<close>.
  For a state before a call, \<open>missing_ids\<close> is \<open>missing_loaded\<close> (the requested
  ids that the partition of the language does not hold), \<open>missing_domains\<close> is
  the list of that name, and \<open>translation_path\<close> is what the loop over the missing
  ids finds for one of them: the path of its file, or \<open>None\<close> when
  \<open>component_translation_file\<close> returns \<open>None\<close> (and when its integration is not
  found).
\<close>

definition cache_lookup :: "tree dict dict \<Rightarrow> string \<Rightarrow> string \<Rightarrow> tree option" where
  "cache_lookup c language component =
     (case map_of c language of None \<Rightarrow> None | Some tc \<Rightarrow> map_of tc component)"

definition last_segment :: "string \<Rightarrow> string" where
  "last_segment component = last (py_split CHR ''.'' component)"

definition missing_ids :: "hass \<Rightarrow> string \<Rightarrow> string list \<Rightarrow> string list" where
  "missing_ids h language components =
     filter (\<lambda>c. cache_lookup (cache h) language c = None) components"

definition missing_domains :: "hass \<Rightarrow> string \<Rightarrow> string list \<Rightarrow> string list" where
  "missing_domains h language components =
     remdups (map last_segment (missing_ids h language components))"

definition translation_path :: "hass \<Rightarrow> string \<Rightarrow> string \<Rightarrow> string option" where
  "translation_path h language component =
     (case registry h (last_segment component) of
        Inl e \<Rightarrow> None
      | Inr integ \<Rightarrow> component_translation_file component language integ)"

subsection \<open>An example installation\<close>

text \<open>
  One integration that is a package (\<open>components/hue\<close>), one that is a single
  file, five translation files (one of them is not a mapping), and an empty
  cache.
\<close>

definition hue_integration :: integration where
  "hue_integration =
     \<lparr>file_path = path_of_string ''components/hue'', name = ''Philips Hue''\<rparr>"

definition single_file_integration :: integration where
  "single_file_integration =
     \<lparr>file_path = path_of_string ''custom_components/my_component.py'', name = ''Mine''\<rparr>"

definition example_registry :: "string \<Rightarrow> error + integration" where
  "example_registry d =
     (if d = ''hue'' then Inr hue_integration
      else if d = ''my_component'' then Inr single_file_integration
      else Inl (IntegrationNotFound d))"

definition example_files :: "string \<Rightarrow> error + json" where
  "example_files p =
     (if p = ''components/hue/.translations/en.json''
      then Inr (JDict [(''title'', JStr ''Hue''), (''extra'', JStr ''x''),
                       (''state'', JDict [(''on'', JStr ''On'')])])
      else if p = ''components/hue/.translations/nl.json''
      then Inr (JDict [(''title'', JStr ''Licht'')])
      else if p = ''components/hue/.translations/light.en.json''
      then Inr (JDict [(''name'', JStr ''Light'')])
      else if p = ''components/hue/.translations/de.json''
      then Inr (JDict [(''title'', JStr ''Hue (de)'')])
      else if p = ''components/hue/.translations/light.de.json''
      then Inr (JList [])
      else Inl (LoadError p))"

definition example_hass :: hass where
  "example_hass =
     \<lparr>config_components = [''hue'', ''light.hue''], config_flows = [''my_component''],
      registry = example_registry, files = example_files,
      cache = [], lock = False, resolutions = [], loads = []\<rparr>"

section \<open>Properties\<close>

subsection \<open>Splitting and paths\<close>

lemma py_split_nodot: "sep \<notin> set s \<Longrightarrow> py_split sep s = [s]"
  by (induction s) auto

lemma py_split_append: "sep \<notin> set a \<Longrightarrow> py_split sep (a @ sep # b) = a # py_split sep b"
  by (induction a) auto

lemma py_split_nonempty: "py_split sep s \<noteq> []"
  by (induction s) (auto split: list.splits)

lemma path_segments_plain:
  "CHR ''/'' \<notin> set s \<Longrightarrow> s \<noteq> [] \<Longrightarrow> s \<noteq> ''.'' \<Longrightarrow> path_segments s = [s]"
  by (simp add: path_segments_def py_split_nodot)

lemma path_div_plain:
  assumes "CHR ''/'' \<notin> set s" and "s \<noteq> []" and "s \<noteq> ''.''"
  shows "path_div p s = p\<lparr>path_parts := path_parts p @ [s]\<rparr>"
proof -
  have "hd s \<in> set s" using assms(2) by simp
  then have "hd s \<noteq> CHR ''/''" using assms(1) by metis
  then show ?thesis by (simp add: path_div_def path_segments_plain [OF assms])
qed

lemma join_slash_snoc: "ps \<noteq> [] \<Longrightarrow> join_slash (ps @ [s]) = join_slash ps @ ''/'' @ s"
  by (induction ps rule: join_slash.induct) auto

lemma join_slash_snoc2:
  "ps \<noteq> [] \<Longrightarrow> join_slash (ps @ [s, t]) = join_slash ps @ ''/'' @ s @ ''/'' @ t"
  using join_slash_snoc [of "ps @ [s]" t] join_slash_snoc [of ps s] by simp

lemma path_str_two_more:
  "path_str (p\<lparr>path_parts := path_parts p @ [s, t]\<rparr>) =
     (if path_parts p = [] then path_root p @ s @ ''/'' @ t
      else path_str p @ ''/'' @ s @ ''/'' @ t)"
  by (simp add: path_str_def join_slash_snoc2)

subsection \<open>The translation file of a platform\<close>

text \<open>
  C1 as it is written fails: for an id of two segments the file is named after
  the first segment, not after the second one. For \<open>light.hue\<close> and \<open>nl\<close> the
  file is \<open>light.nl.json\<close> under the root of the integration (which is looked up
  by the last segment, \<open>hue\<close>), and not \<open>hue.nl.json\<close>. And a first segment that
  starts with \<open>/\<close> makes a file name that is an absolute path, which replaces
  the root of the integration altogether.
\<close>

theorem C1_second_segment_counterexample:
  "component_translation_file ''light.hue'' ''nl''
       \<lparr>file_path = path_of_string ''components/hue'', name = ''Philips Hue''\<rparr>
     = Some ''components/hue/.translations/light.nl.json''
   \<and> component_translation_file ''light.hue'' ''nl''
       \<lparr>file_path = path_of_string ''components/hue'', name = ''Philips Hue''\<rparr>
     \<noteq> Some ''components/hue/.translations/hue.nl.json''
   \<and> component_translation_file ''/etc.hue'' ''nl''
       \<lparr>file_path = path_of_string ''components/hue'', name = ''Philips Hue''\<rparr>
     = Some ''/etc.nl.json''"
  by code_simp

text \<open>
  C1, amended: for every component id \<open>a.b\<close> of exactly two segments and every
  language, where neither \<open>a\<close> nor the language contains \<open>/\<close>,
  \<open>component_translation_file\<close> returns the path
  \<open><root>/.translations/a.<language>.json\<close>, named after the first segment, where
  \<open><root>\<close> is the integration's file path as a string and the file path has at
  least one component. For a file path that is a bare root (\<open>/\<close>, \<open>//\<close> or the
  empty path) the result is that root followed by
  \<open>.translations/a.<language>.json\<close>.
\<close>

theorem C1_platform_file:
  assumes "CHR ''.'' \<notin> set a" and "CHR ''.'' \<notin> set b"
    and "CHR ''/'' \<notin> set a" and "CHR ''/'' \<notin> set language"
  shows "component_translation_file (a @ ''.'' @ b) language integ =
           Some (if path_parts (file_path integ) = []
                 then path_root (file_path integ)
                        @ ''.translations/'' @ a @ ''.'' @ language @ ''.json''
                 else path_str (file_path integ)
                        @ ''/.translations/'' @ a @ ''.'' @ language @ ''.json'')"
proof -
  let ?f = "a @ ''.'' @ language @ ''.json''"
  have parts: "py_split CHR ''.'' (a @ ''.'' @ b) = [a, b]"
    using assms(1,2) by (simp add: py_split_append py_split_nodot)
  have t: "path_div (file_path integ) ''.translations''
             = (file_path integ)\<lparr>path_parts := path_parts (file_path integ) @ [''.translations'']\<rparr>"
    by (rule path_div_plain) simp_all
  have fdot: "?f \<noteq> ''.''"
  proof
    assume "?f = ''.''"
    then have "length ?f = length ''.''" by (rule arg_cong)
    then show False by simp
  qed
  have f: "path_div ((file_path integ)\<lparr>path_parts := path_parts (file_path integ) @ [''.translations'']\<rparr>) ?f
             = (file_path integ)\<lparr>path_parts := path_parts (file_path integ) @ [''.translations'', ?f]\<rparr>"
    using assms(3,4) fdot by (subst path_div_plain) simp_all
  have "component_translation_file (a @ ''.'' @ b) language integ
          = Some (path_str ((file_path integ)\<lparr>path_parts := path_parts (file_path integ) @ [''.translations'', ?f]\<rparr>))"
    using parts t f by (simp add: component_translation_file_def Let_def)
  then show ?thesis by (simp add: path_str_two_more)
qed

theorem C1_platform_file_witness:
  "component_translation_file (''switch'' @ ''.'' @ ''hue'') ''de''
       \<lparr>file_path = path_of_string ''/config/custom_components/hue'', name = ''Hue''\<rparr>
     = Some ''/config/custom_components/hue/.translations/switch.de.json''
   \<and> component_translation_file (''switch'' @ ''.'' @ ''hue'') ''de''
       \<lparr>file_path = path_of_string ''/'', name = ''Hue''\<rparr>
     = Some ''/.translations/switch.de.json''"
proof -
  let ?i1 = "\<lparr>file_path = path_of_string ''/config/custom_components/hue'', name = ''Hue''\<rparr>"
  let ?i2 = "\<lparr>file_path = path_of_string ''/'', name = ''Hue''\<rparr>"
  have a1: "component_translation_file (''switch'' @ ''.'' @ ''hue'') ''de'' ?i1 =
           Some (if path_parts (file_path ?i1) = []
                 then path_root (file_path ?i1)
                        @ ''.translations/'' @ ''switch'' @ ''.'' @ ''de'' @ ''.json''
                 else path_str (file_path ?i1)
                        @ ''/.translations/'' @ ''switch'' @ ''.'' @ ''de'' @ ''.json'')"
    by (rule C1_platform_file) simp_all
  have a2: "component_translation_file (''switch'' @ ''.'' @ ''hue'') ''de'' ?i2 =
           Some (if path_parts (file_path ?i2) = []
                 then path_root (file_path ?i2)
                        @ ''.translations/'' @ ''switch'' @ ''.'' @ ''de'' @ ''.json''
                 else path_str (file_path ?i2)
                        @ ''/.translations/'' @ ''switch'' @ ''.'' @ ''de'' @ ''.json'')"
    by (rule C1_platform_file) simp_all
  have b1: "(if path_parts (file_path ?i1) = []
                 then path_root (file_path ?i1)
                        @ ''.translations/'' @ ''switch'' @ ''.'' @ ''de'' @ ''.json''
                 else path_str (file_path ?i1)
                        @ ''/.translations/'' @ ''switch'' @ ''.'' @ ''de'' @ ''.json'')
            = ''/config/custom_components/hue/.translations/switch.de.json''"
    by code_simp
  have b2: "(if path_parts (file_path ?i2) = []
                 then path_root (file_path ?i2)
                        @ ''.translations/'' @ ''switch'' @ ''.'' @ ''de'' @ ''.json''
                 else path_str (file_path ?i2)
                        @ ''/.translations/'' @ ''switch'' @ ''.'' @ ''de'' @ ''.json'')
            = ''/.translations/switch.de.json''"
    by code_simp
  show ?thesis
    unfolding a1 a2 b1 b2 by (rule conjI) (rule refl)+
qed

subsection \<open>Flattening\<close>

lemma length_leaf_paths: "length (leaf_paths v) = leaves v"
  by (induction v rule: leaves.induct) (auto simp: length_concat comp_def intro!: arg_cong[where f=sum_list])

lemma update_fresh: "k \<notin> fst ` set d \<Longrightarrow> AList.update k v d = d @ [(k, v)]"
  by (induction d) auto

lemma dict_update_fresh:
  "distinct (map fst e) \<Longrightarrow> fst ` set e \<inter> fst ` set d = {} \<Longrightarrow> dict_update d e = d @ e"
proof (induction e arbitrary: d)
  case Nil
  then show ?case by (simp add: dict_update_def)
next
  case (Cons a e)
  obtain k v where a: "a = (k, v)" by (cases a)
  have fresh: "k \<notin> fst ` set d" using Cons.prems a by auto
  have "dict_update d (a # e) = dict_update (AList.update k v d) e"
    by (simp add: dict_update_def a)
  also have "\<dots> = dict_update (d @ [(k, v)]) e"
    by (simp add: update_fresh [OF fresh])
  also have "\<dots> = (d @ [(k, v)]) @ e"
    using Cons.prems a by (intro Cons.IH) auto
  finally show ?case by (simp add: a)
qed

lemma py_split_dotted:
  "p \<noteq> [] \<Longrightarrow> \<forall>s \<in> set p. CHR ''.'' \<notin> set s \<Longrightarrow> py_split CHR ''.'' (dotted p) = p"
proof (induction p rule: dotted.induct)
  case 1
  then show ?case by simp
next
  case (2 k)
  then show ?case by (simp add: py_split_nodot)
next
  case (3 k v va)
  then show ?case by (simp add: py_split_append)
qed


lemma leaf_paths_hd:
  "l \<in> set (leaf_paths (JDict d)) \<Longrightarrow> fst l \<noteq> [] \<and> hd (fst l) \<in> fst ` set d"
  by (force simp: image_iff)

lemma leaf_paths_dotfree:
  "keys_ok v \<Longrightarrow> l \<in> set (leaf_paths v) \<Longrightarrow> \<forall>s \<in> set (fst l). CHR ''.'' \<notin> set s"
proof (induction v arbitrary: l rule: leaf_paths.induct)
  case (1 d)
  from "1.prems"(2) obtain e l' where e: "e \<in> set d" "l' \<in> set (leaf_paths (snd e))"
    "l = (fst e # fst l', snd l')" by auto
  have "keys_ok (snd e)" "CHR ''.'' \<notin> set (fst e)" using "1.prems"(1) e(1) by auto
  with "1.IH" [OF e(1) _ e(2)] e(3) show ?case by simp
qed auto

lemma distinct_leaf_paths: "keys_ok v \<Longrightarrow> distinct (map fst (leaf_paths v))"
proof (induction v rule: leaf_paths.induct)
  case (1 d)
  let ?f = "\<lambda>e. map (\<lambda>l. (fst e # fst l, snd l)) (leaf_paths (snd e))"
  have ok: "\<And>e. e \<in> set d \<Longrightarrow> keys_ok (snd e)" and dk: "distinct (map fst d)"
    using "1.prems" by auto
  have "distinct (map fst (concat (map ?f d)))"
    using dk ok "1.IH"
  proof (induction d)
    case Nil
    then show ?case by simp
  next
    case (Cons e d)
    have a: "distinct (map fst (?f e))"
      using Cons.prems(3) [of e] Cons.prems(2) [of e]
      by (simp add: distinct_map comp_def inj_on_def)
    have b: "distinct (map fst (concat (map ?f d)))"
      using Cons.prems by (intro Cons.IH) auto
    have c: "set (map fst (?f e)) \<inter> set (map fst (concat (map ?f d))) = {}"
      using Cons.prems(1) by (auto simp: image_iff) 
    show ?case using a b c by simp
  qed
  then show ?case by simp
qed auto


lemma dotted_Cons: "p \<noteq> [] \<Longrightarrow> dotted (k # p) = k @ ''.'' @ dotted p"
  by (cases p) auto

lemma leaf_entries_Nil: "leaf_entries prefix [] = []"
  by (simp add: leaf_entries_def)

lemma leaf_entries_dict:
  "leaf_entries prefix ((k, JDict d) # rest) =
     leaf_entries (prefix @ k @ ''.'') d @ leaf_entries prefix rest"
proof -
  have "map (\<lambda>l. (prefix @ dotted (fst l), snd l))
          (map (\<lambda>l. (k # fst l, snd l)) (leaf_paths (JDict d)))
        = map (\<lambda>l. ((prefix @ k @ ''.'') @ dotted (fst l), snd l)) (leaf_paths (JDict d))"
    using leaf_paths_hd [of _ d] by (auto simp: dotted_Cons simp del: leaf_paths.simps)
  then show ?thesis by (simp add: leaf_entries_def del: leaf_paths.simps(1)) (simp)
qed

lemma leaf_entries_leaf:
  "\<forall>d. v \<noteq> JDict d \<Longrightarrow>
     leaf_entries prefix ((k, v) # rest) = (prefix @ k, v) # leaf_entries prefix rest"
  by (cases v) (auto simp: leaf_entries_def)

lemma distinct_leaf_entries:
  assumes "keys_ok (JDict data)"
  shows "distinct (map fst (leaf_entries prefix data))"
proof -
  let ?ps = "map fst (leaf_paths (JDict data))"
  have d: "distinct ?ps" using assms by (rule distinct_leaf_paths)
  have inj: "inj_on (\<lambda>p. prefix @ dotted p) (set ?ps)"
  proof (rule inj_onI)
    fix p q assume p: "p \<in> set ?ps" and q: "q \<in> set ?ps"
      and eq: "prefix @ dotted p = prefix @ dotted q"
    from p obtain l where l: "l \<in> set (leaf_paths (JDict data))" "p = fst l" by auto
    from q obtain m where m: "m \<in> set (leaf_paths (JDict data))" "q = fst m" by auto
    have pn: "p \<noteq> []" using leaf_paths_hd [OF l(1)] l(2) by simp
    have pd: "\<forall>s \<in> set p. CHR ''.'' \<notin> set s"
      using leaf_paths_dotfree [OF assms l(1)] l(2) by simp
    have qn: "q \<noteq> []" using leaf_paths_hd [OF m(1)] m(2) by simp
    have qd: "\<forall>s \<in> set q. CHR ''.'' \<notin> set s"
      using leaf_paths_dotfree [OF assms m(1)] m(2) by simp
    have sp: "py_split CHR ''.'' (dotted p) = p" by (rule py_split_dotted [OF pn pd])
    have sq: "py_split CHR ''.'' (dotted q) = q" by (rule py_split_dotted [OF qn qd])
    have "dotted p = dotted q" using eq by simp
    then show "p = q" using sp sq by metis
  qed
  have "distinct (map (\<lambda>p. prefix @ dotted p) ?ps)"
    using d inj by (rule distinct_map [THEN iffD2, OF conjI])
  moreover have "map fst (leaf_entries prefix data) = map (\<lambda>p. prefix @ dotted p) ?ps"
    by (simp add: leaf_entries_def comp_def del: leaf_paths.simps)
  ultimately show ?thesis by (simp only:)
qed

lemma keys_ok_tail: "keys_ok (JDict (e # rest)) \<Longrightarrow> keys_ok (JDict rest)"
  by simp

lemma leaf_key_fresh:
  assumes "key \<notin> fst ` set rest" "distinct (map fst rest)" "CHR ''.'' \<notin> set key"
    "\<forall>p\<in>set rest. CHR ''.'' \<notin> set (fst p) \<and> keys_ok (snd p)"
  shows "prefix @ key \<notin> fst ` set (leaf_entries prefix rest)"
proof -
  have "keys_ok (JDict ((key, JNull) # rest))" using assms by simp
  from distinct_leaf_entries [OF this, of prefix] show ?thesis
    by (simp add: leaf_entries_leaf)
qed

lemma flatten_loop_entries:
  "keys_ok (JDict data) \<Longrightarrow> fst ` set out \<inter> fst ` set (leaf_entries prefix data) = {}
     \<Longrightarrow> flatten_loop prefix out data = out @ leaf_entries prefix data"
proof (induction prefix out data rule: flatten_loop.induct)
  case (1 prefix out)
  then show ?case by (simp add: leaf_entries_Nil)
next
  case (2 prefix out key d rest)
  let ?inner = "leaf_entries (prefix @ key @ ''.'') d"
  have okd: "keys_ok (JDict d)" and okr: "keys_ok (JDict rest)" using "2.prems"(1) by auto
  have split: "leaf_entries prefix ((key, JDict d) # rest) = ?inner @ leaf_entries prefix rest"
    by (rule leaf_entries_dict)
  have dall: "distinct (map fst (?inner @ leaf_entries prefix rest))"
    using distinct_leaf_entries [OF "2.prems"(1), of prefix] split by simp
  have inner: "flatten_loop (prefix @ key @ ''.'') [] d = ?inner"
    using "2.IH"(1) [OF okd] by simp
  have upd: "dict_update out ?inner = out @ ?inner"
    using dall "2.prems"(2) split by (intro dict_update_fresh) auto
  have "flatten_loop prefix (out @ ?inner) rest = (out @ ?inner) @ leaf_entries prefix rest"
    using "2.IH"(2) [OF okr] inner upd dall "2.prems"(2) split
    by (auto simp: image_Un)
  then show ?case using inner upd split by simp
qed (auto simp: leaf_entries_leaf update_fresh leaf_key_fresh)

text \<open>
  C3: for a tree whose keys contain no \<open>.\<close>, \<open>flatten\<close> gives exactly one entry
  per leaf, in order, keyed by the ancestor keys joined with \<open>.\<close>; so there are
  as many entries as leaves, and no two entries share a key (nothing is
  overwritten). The witness is the example of the specification.
\<close>

theorem C3_flatten_one_entry_per_leaf:
  assumes "keys_ok (JDict data)"
  shows "flatten data = map (\<lambda>l. (dotted (fst l), snd l)) (leaf_paths (JDict data))
       \<and> length (flatten data) = leaves (JDict data)
       \<and> distinct (map fst (flatten data))"
proof -
  have eq: "flatten data = leaf_entries [] data"
    using flatten_loop_entries [OF assms, of "[]" "[]"]
    by (simp add: flatten_def recursive_flatten_def)
  have "length (leaf_entries [] data) = leaves (JDict data)"
    unfolding leaf_entries_def by (simp only: length_map length_leaf_paths)
  moreover have "leaf_entries [] data = map (\<lambda>l. (dotted (fst l), snd l)) (leaf_paths (JDict data))"
    by (simp add: leaf_entries_def del: leaf_paths.simps)
  ultimately show ?thesis
    using eq distinct_leaf_entries [OF assms, of "[]"] by (simp only: simp_thms)
qed

theorem C3_flatten_witness:
  "keys_ok (JDict [(''a'', JDict [(''b'', JStr ''x''), (''c'', JDict [(''d'', JStr ''y'')])])])
   \<and> flatten [(''a'', JDict [(''b'', JStr ''x''), (''c'', JDict [(''d'', JStr ''y'')])])]
       = [(''a.b'', JStr ''x''), (''a.c.d'', JStr ''y'')]
   \<and> length (flatten [(''a'', JDict [(''b'', JStr ''x''), (''c'', JDict [(''d'', JStr ''y'')])])]) = 2
   \<and> leaves (JDict [(''a'', JDict [(''b'', JStr ''x''), (''c'', JDict [(''d'', JStr ''y'')])])]) = 2"
proof -
  have ok: "keys_ok (JDict [(''a'', JDict [(''b'', JStr ''x''), (''c'', JDict [(''d'', JStr ''y'')])])])"
    by simp
  show ?thesis
    using ok C3_flatten_one_entry_per_leaf [OF ok] by simp
qed

subsection \<open>Aggregation per domain\<close>

lemma component_domain_eq: "component_domain c = before_first_dot c"
proof (cases "CHR ''.'' \<in> set c")
  case True
  then show ?thesis by (simp add: component_domain_def before_first_dot_def py_split1_def)
next
  case False
  then have "takeWhile (\<lambda>x. x \<noteq> CHR ''.'') c = c" by (induction c) auto
  then show ?thesis
    unfolding component_domain_def before_first_dot_def using False by (simp only: if_True simp_thms)
qed

lemma map_of_dict_update:
  "distinct (map fst e) \<Longrightarrow> map_of (dict_update d e) = map_of d ++ map_of e"
proof (induction e arbitrary: d)
  case Nil
  then show ?case by (simp add: dict_update_def)
next
  case (Cons a e)
  obtain k v where a: "a = (k, v)" by (cases a)
  have ke: "k \<notin> dom (map_of e)" using Cons.prems a by (auto simp: dom_map_of_conv_image_fst)
  have "map_of (dict_update d (a # e)) = map_of (dict_update (AList.update k v d) e)"
    by (simp add: dict_update_def a)
  also have "\<dots> = map_of (AList.update k v d) ++ map_of e"
    using Cons.prems by (intro Cons.IH) simp
  also have "\<dots> = (map_of d)(k \<mapsto> v) ++ map_of e"
    by (simp only: update_conv')
  also have "\<dots> = map_of d ++ map_of (a # e)"
    using ke by (auto simp: a map_add_def fun_eq_iff split: option.splits)
  finally show ?case .
qed

lemma distinct_dict_update:
  "distinct (map fst d) \<Longrightarrow> distinct (map fst (dict_update d e))"
  by (induction e arbitrary: d) (auto simp: dict_update_def distinct_update)

lemma build_loop_result:
  assumes "\<forall>c \<in> set comps. map_of tc c \<noteq> None"
  shows "\<exists>res'. build_loop tc res comps = Inr res'
           \<and> (distinct (map fst res) \<longrightarrow> distinct (map fst res'))
           \<and> (\<forall>d. map_of res' d =
                  (if map_of res d = None \<and> d \<notin> before_first_dot ` set comps then None
                   else Some (fold (\<lambda>c acc. if before_first_dot c = d
                                 then dict_update acc (tree_of tc c) else acc) comps (current res d))))"
  using assms
proof (induction comps arbitrary: res)
  case Nil
  then show ?case by (auto simp: current_def)
next
  case (Cons c comps)
  define dom where "dom = before_first_dot c"
  define res1 where "res1 = (if map_of res dom = None then AList.update dom [] res else res)"
  obtain t where t: "map_of tc c = Some t" using Cons.prems by auto
  have cur: "map_of res1 dom = Some (current res dom)"
    by (auto simp: res1_def current_def update_conv')
  define res2 where "res2 = AList.update dom (dict_update (current res dom) t) res1"
  have step: "build_loop tc res (c # comps) = build_loop tc res2 comps"
    using cur t by (simp add: Let_def component_domain_eq dom_def [symmetric] res1_def [symmetric] res2_def)
  have m2: "map_of res2 = (map_of res)(dom \<mapsto> dict_update (current res dom) t)"
    by (auto simp: res2_def res1_def update_conv')
  have d2: "distinct (map fst res) \<Longrightarrow> distinct (map fst res2)"
    by (simp add: res2_def res1_def distinct_update)
  have c2: "\<And>d. current res2 d = (if before_first_dot c = d
              then dict_update (current res d) (tree_of tc c) else current res d)"
    by (auto simp: current_def m2 dom_def tree_of_def t)
  from Cons.IH [of res2] Cons.prems obtain res' where r:
    "build_loop tc res2 comps = Inr res'"
    "distinct (map fst res2) \<longrightarrow> distinct (map fst res')"
    "\<forall>d. map_of res' d =
          (if map_of res2 d = None \<and> d \<notin> before_first_dot ` set comps then None
           else Some (fold (\<lambda>c acc. if before_first_dot c = d
                         then dict_update acc (tree_of tc c) else acc) comps (current res2 d)))"
    by auto
  show ?case
  proof (intro exI conjI allI)
    show "build_loop tc res (c # comps) = Inr res'" using step r(1) by simp
    show "distinct (map fst res) \<longrightarrow> distinct (map fst res')" using d2 r(2) by blast
    fix d
    show "map_of res' d =
          (if map_of res d = None \<and> d \<notin> before_first_dot ` set (c # comps) then None
           else Some (fold (\<lambda>c acc. if before_first_dot c = d
                         then dict_update acc (tree_of tc c) else acc) (c # comps) (current res d)))"
      using r(3) [rule_format, of d] c2 [of d] by (auto simp: m2 dom_def)
  qed
qed

lemma build_resources_lookup:
  assumes "\<forall>c \<in> set components. map_of translation_cache c \<noteq> None"
  shows "\<exists>resources. build_resources translation_cache components = Inr resources
           \<and> (\<forall>d. map_of resources d =
                  (if d \<notin> before_first_dot ` set components then None
                   else Some (domain_tree translation_cache d components)))"
  using build_loop_result [OF assms, of "[]"]
  by (auto simp: current_def domain_tree_def build_resources_def)

text \<open>
  C4: when every requested id is in the cache, \<open>build_resources\<close> raises nothing;
  its result has exactly one entry per domain, the domain of an id being what
  stands before its first \<open>.\<close> (the whole id when it has none), and the tree of a
  domain is what \<open>dict.update\<close> makes of the trees of its ids, taken in the order
  of the request, starting from the empty dictionary. The witness is the example
  of the specification.
\<close>

theorem C4_build_resources:
  assumes "\<forall>c \<in> set components. map_of translation_cache c \<noteq> None"
  shows "\<exists>resources. build_resources translation_cache components = Inr resources
           \<and> distinct (map fst resources)
           \<and> fst ` set resources = before_first_dot ` set components
           \<and> (\<forall>c \<in> set components.
                 map_of resources (before_first_dot c)
                   = Some (domain_tree translation_cache (before_first_dot c) components))"
proof -
  from build_loop_result [OF assms, of "[]"] obtain res where r:
    "build_loop translation_cache [] components = Inr res"
    "distinct (map fst res)"
    "\<forall>d. map_of res d =
          (if d \<notin> before_first_dot ` set components then None
           else Some (domain_tree translation_cache d components))"
    by (auto simp: current_def domain_tree_def)
  have "fst ` set res = dom (map_of res)" by (simp add: dom_map_of_conv_image_fst)
  also have "\<dots> = before_first_dot ` set components"
    using r(3) by (auto simp: dom_def)
  finally have keys: "fst ` set res = before_first_dot ` set components" .
  show ?thesis
    using r keys by (auto simp: build_resources_def)
qed

theorem C4_build_resources_witness:
  "map_of [(''hue'', [(''title'', JStr ''Hue'')]), (''hue.light'', [(''name'', JStr ''Light'')])] ''hue''
     = Some [(''title'', JStr ''Hue'')]
   \<and> map_of [(''hue'', [(''title'', JStr ''Hue'')]), (''hue.light'', [(''name'', JStr ''Light'')])] ''hue.light''
     = Some [(''name'', JStr ''Light'')]
   \<and> build_resources
        [(''hue'', [(''title'', JStr ''Hue'')]), (''hue.light'', [(''name'', JStr ''Light'')])]
        [''hue'', ''hue.light'']
      = Inr [(''hue'', [(''title'', JStr ''Hue''), (''name'', JStr ''Light'')])]"
proof -
  have h: "\<forall>c \<in> set [''hue'', ''hue.light''].
      map_of [(''hue'', [(''title'', JStr ''Hue'')]), (''hue.light'', [(''name'', JStr ''Light'')])] c \<noteq> None"
    by simp
  show ?thesis
    using h C4_build_resources [OF h]
    by (simp add: build_resources_def component_domain_def py_split1_def dict_update_def)
qed

lemma domain_tree_snoc:
  "domain_tree tc d (cs @ [c]) =
     (if before_first_dot c = d then dict_update (domain_tree tc d cs) (tree_of tc c)
      else domain_tree tc d cs)"
  by (simp add: domain_tree_def)

lemma domain_tree_lookup:
  assumes "trees_are_dicts tc comps" and "agree_on_shared_keys tc comps"
  shows "map_of (domain_tree tc d comps) k = Some v \<longleftrightarrow>
           (\<exists>c \<in> set comps. before_first_dot c = d \<and> map_of (tree_of tc c) k = Some v)"
  using assms
proof (induction comps rule: rev_induct)
  case Nil
  then show ?case by (simp add: domain_tree_def)
next
  case (snoc c cs)
  have wf: "trees_are_dicts tc cs" and ag: "agree_on_shared_keys tc cs"
    using snoc.prems by (auto simp: trees_are_dicts_def agree_on_shared_keys_def)
  note IH = snoc.IH [OF wf ag]
  show ?case
  proof (cases "before_first_dot c = d")
    case False
    then show ?thesis using IH by (auto simp: domain_tree_snoc)
  next
    case True
    have dc: "distinct (map fst (tree_of tc c))"
      using snoc.prems(1) by (simp add: trees_are_dicts_def)
    have look: "map_of (domain_tree tc d (cs @ [c])) k =
        (case map_of (tree_of tc c) k of None \<Rightarrow> map_of (domain_tree tc d cs) k | Some x \<Rightarrow> Some x)"
      using True by (simp add: domain_tree_snoc map_of_dict_update [OF dc] map_add_def)
    show ?thesis
    proof (cases "map_of (tree_of tc c) k")
      case None
      then show ?thesis using look IH by auto
    next
      case (Some x)
      have other: "\<And>c'. c' \<in> set cs \<Longrightarrow> before_first_dot c' = d \<Longrightarrow>
                     map_of (tree_of tc c') k = Some v \<Longrightarrow> v = x"
      proof -
        fix c' assume c': "c' \<in> set cs" "before_first_dot c' = d" "map_of (tree_of tc c') k = Some v"
        have "k \<in> fst ` set (tree_of tc c')"
          using c'(3) by (metis domI dom_map_of_conv_image_fst)
        with snoc.prems(2) c'(1,2) True
        have "map_of (tree_of tc c) k = None \<or> map_of (tree_of tc c) k = map_of (tree_of tc c') k"
          unfolding agree_on_shared_keys_def by auto
        with Some c'(3) show "v = x" by simp
      qed
      show ?thesis using look Some True other by auto
    qed
  qed
qed

text \<open>
  C10 as it is written fails: \<open>hue\<close> and \<open>hue.light\<close> both have the key
  \<open>title\<close>, and the value kept is the one of the id that comes last.
\<close>

theorem C10_order_counterexample:
  "build_resources
     [(''hue'', [(''title'', JStr ''Hue'')]), (''hue.light'', [(''title'', JStr ''Light'')])]
     [''hue'', ''hue.light'']
     = Inr [(''hue'', [(''title'', JStr ''Light'')])]
   \<and> build_resources
     [(''hue'', [(''title'', JStr ''Hue'')]), (''hue.light'', [(''title'', JStr ''Light'')])]
     [''hue.light'', ''hue'']
     = Inr [(''hue'', [(''title'', JStr ''Hue'')])]"
  by (simp add: build_resources_def component_domain_def py_split1_def dict_update_def)

text \<open>
  C10, amended: the output of \<open>build_resources\<close> does not depend on the order in
  which the requested ids are enumerated, as a mapping from domain and key to
  value, provided the trees of two requested ids of one domain give the same
  value to every top-level key they share (in particular when they share none).
  The order of the entries inside the dictionaries may differ.
\<close>

theorem C10_order_independent:
  assumes "\<forall>c \<in> set components. map_of translation_cache c \<noteq> None"
    and "set components' = set components"
    and "trees_are_dicts translation_cache components"
    and "agree_on_shared_keys translation_cache components"
  shows "\<exists>r r'. build_resources translation_cache components = Inr r
              \<and> build_resources translation_cache components' = Inr r'
              \<and> fst ` set r = fst ` set r'
              \<and> (\<forall>d k. lookup2 r d k = lookup2 r' d k)"
proof -
  have p': "\<forall>c \<in> set components'. map_of translation_cache c \<noteq> None"
    using assms(1,2) by simp
  have w': "trees_are_dicts translation_cache components'"
    using assms(2,3) by (simp add: trees_are_dicts_def)
  have a': "agree_on_shared_keys translation_cache components'"
    using assms(2,4) by (simp add: agree_on_shared_keys_def)
  from build_resources_lookup [OF assms(1)] obtain r where r:
    "build_resources translation_cache components = Inr r"
    "\<forall>d. map_of r d = (if d \<notin> before_first_dot ` set components then None
                        else Some (domain_tree translation_cache d components))"
    by blast
  from build_resources_lookup [OF p'] obtain r' where r':
    "build_resources translation_cache components' = Inr r'"
    "\<forall>d. map_of r' d = (if d \<notin> before_first_dot ` set components' then None
                         else Some (domain_tree translation_cache d components'))"
    by blast
  have same: "\<And>d k. map_of (domain_tree translation_cache d components) k
                    = map_of (domain_tree translation_cache d components') k"
  proof -
    fix d k
    have "\<And>v. map_of (domain_tree translation_cache d components) k = Some v
            \<longleftrightarrow> map_of (domain_tree translation_cache d components') k = Some v"
      using domain_tree_lookup [OF assms(3,4)] domain_tree_lookup [OF w' a'] assms(2) by simp
    then show "map_of (domain_tree translation_cache d components) k
                 = map_of (domain_tree translation_cache d components') k"
      by (metis option.exhaust)
  qed
  have "dom (map_of r) = dom (map_of r')"
    using r(2) r'(2) assms(2) by (auto simp: dom_def)
  then have keys: "fst ` set r = fst ` set r'" by (simp add: dom_map_of_conv_image_fst)
  have "\<forall>d k. lookup2 r d k = lookup2 r' d k"
    using r(2) r'(2) assms(2) same by (simp add: lookup2_def)
  with r(1) r'(1) keys show ?thesis by blast
qed

theorem C10_order_independent_witness:
  "map_of [(''hue'', [(''title'', JStr ''Hue'')]),
           (''hue.light'', [(''name'', JStr ''Light''), (''title'', JStr ''Hue'')])] ''hue''
     = Some [(''title'', JStr ''Hue'')]
   \<and> map_of [(''hue'', [(''title'', JStr ''Hue'')]),
           (''hue.light'', [(''name'', JStr ''Light''), (''title'', JStr ''Hue'')])] ''hue.light''
     = Some [(''name'', JStr ''Light''), (''title'', JStr ''Hue'')]
   \<and> set [''hue.light'', ''hue''] = set [''hue'', ''hue.light'']
   \<and> trees_are_dicts [(''hue'', [(''title'', JStr ''Hue'')]),
              (''hue.light'', [(''name'', JStr ''Light''), (''title'', JStr ''Hue'')])] [''hue'', ''hue.light'']
   \<and> agree_on_shared_keys [(''hue'', [(''title'', JStr ''Hue'')]),
              (''hue.light'', [(''name'', JStr ''Light''), (''title'', JStr ''Hue'')])] [''hue'', ''hue.light'']
   \<and> (\<exists>r r'. build_resources [(''hue'', [(''title'', JStr ''Hue'')]),
              (''hue.light'', [(''name'', JStr ''Light''), (''title'', JStr ''Hue'')])] [''hue'', ''hue.light''] = Inr r
          \<and> build_resources [(''hue'', [(''title'', JStr ''Hue'')]),
              (''hue.light'', [(''name'', JStr ''Light''), (''title'', JStr ''Hue'')])] [''hue.light'', ''hue''] = Inr r'
          \<and> fst ` set r = fst ` set r'
          \<and> (\<forall>d k. lookup2 r d k = lookup2 r' d k))"
proof -
  let ?tc = "[(''hue'', [(''title'', JStr ''Hue'')]),
              (''hue.light'', [(''name'', JStr ''Light''), (''title'', JStr ''Hue'')])]"
  have h1: "\<forall>c \<in> set [''hue'', ''hue.light'']. map_of ?tc c \<noteq> None" by simp
  have h2: "set [''hue.light'', ''hue''] = set [''hue'', ''hue.light'']" by auto
  have h3: "trees_are_dicts ?tc [''hue'', ''hue.light'']"
    by (simp add: trees_are_dicts_def tree_of_def)
  have h4: "agree_on_shared_keys ?tc [''hue'', ''hue.light'']"
    by (simp add: agree_on_shared_keys_def tree_of_def before_first_dot_def)
  show ?thesis
    using C10_order_independent [OF h1 h2 h3 h4] h2 h3 h4 by simp
qed

subsection \<open>Dictionaries and the cache\<close>

lemma update_same: "map_of d k = Some v \<Longrightarrow> AList.update k v d = d"
  by (induction d) (auto split: if_splits)

lemma map_of_setdefault:
  "map_of (setdefault k v d) k' = (if k' = k \<and> map_of d k = None then Some v else map_of d k')"
  by (auto simp: setdefault_def update_conv' split: option.splits)

lemma partition_of_setdefault:
  "partition_of (setdefault l [] c) l = partition_of c l"
  by (simp add: partition_of_def map_of_setdefault split: option.splits)

lemma map_of_partition_of: "map_of (partition_of c l) k = cache_lookup c l k"
  by (simp add: partition_of_def cache_lookup_def split: option.splits)

lemma cache_lookup_update:
  "cache_lookup (AList.update l tc c) l' k = (if l' = l then map_of tc k else cache_lookup c l' k)"
  by (simp add: cache_lookup_def update_conv')

lemma cache_lookup_setdefault:
  "cache_lookup (setdefault l [] c) l' k = cache_lookup c l' k"
  by (simp add: cache_lookup_def map_of_setdefault split: option.splits)

lemma setdefault_present: "map_of d k = Some v \<Longrightarrow> setdefault k w d = d"
  by (simp add: setdefault_def)

lemma dict_update_keys: "fst ` set (dict_update d e) = fst ` set d \<union> fst ` set e"
proof (induction e arbitrary: d)
  case Nil
  then show ?case by (simp add: dict_update_def)
next
  case (Cons a e)
  obtain k v where a: "a = (k, v)" by (cases a)
  have "dict_update d (a # e) = dict_update (AList.update k v d) e"
    by (simp add: dict_update_def a)
  then show ?case using Cons.IH [of "AList.update k v d"] by (auto simp: a dom_update)
qed

lemma dict_update_other:
  "k \<notin> fst ` set e \<Longrightarrow> map_of (dict_update d e) k = map_of d k"
proof (induction e arbitrary: d)
  case Nil
  then show ?case by (simp add: dict_update_def)
next
  case (Cons a e)
  obtain k' v where a: "a = (k', v)" by (cases a)
  have "dict_update d (a # e) = dict_update (AList.update k' v d) e"
    by (simp add: dict_update_def a)
  then show ?case using Cons.IH [of "AList.update k' v d"] Cons.prems
    by (auto simp: a update_conv')
qed

lemma dict_update_present:
  "k \<in> fst ` set e \<Longrightarrow> map_of (dict_update d e) k \<noteq> None"
  using dict_update_keys [of d e] by (metis UnI2 domIff dom_map_of_conv_image_fst)

lemma dict_update_lookup:
  "distinct (map fst e) \<Longrightarrow>
     map_of (dict_update d e) k = (case map_of e k of Some v \<Rightarrow> Some v | None \<Rightarrow> map_of d k)"
  by (simp add: map_of_dict_update map_add_def)

lemma key_iff_map_of: "k \<in> fst ` set d \<longleftrightarrow> map_of d k \<noteq> None"
  by (metis domIff dom_map_of_conv_image_fst)

lemma map_of_all_None: "\<forall>k. map_of d k = None \<Longrightarrow> d = []"
  by (cases d) (auto split: if_splits)

lemma missing_ids_iff:
  "k \<in> set (missing_ids h language components)
     \<longleftrightarrow> k \<in> set components \<and> cache_lookup (cache h) language k = None"
  by (simp add: missing_ids_def)

lemma last_segment_nodot: "CHR ''.'' \<notin> set c \<Longrightarrow> last_segment c = c"
  by (simp add: last_segment_def py_split_nodot)

subsection \<open>The steps of the cache fill\<close>

lemma gather_Inr:
  "gather_integrations get ds = Inr found \<Longrightarrow>
     length found = length ds
     \<and> (\<forall>d \<in> set ds. \<exists>i. get d = Inr i \<and> map_of (zip ds found) d = Some i)"
proof (induction ds arbitrary: found)
  case Nil
  then show ?case by simp
next
  case (Cons d ds)
  from Cons.prems obtain i rest where i: "get d = Inr i"
    and rest: "gather_integrations get ds = Inr rest" and f: "found = i # rest"
    by (auto split: sum.splits)
  from Cons.IH [OF rest] show ?case using i f by auto
qed

lemma gather_all:
  "\<forall>d \<in> set ds. \<exists>i. get d = Inr i \<Longrightarrow> \<exists>found. gather_integrations get ds = Inr found"
  by (induction ds) (auto split: sum.splits)

lemma load_loop_Inr:
  "load_loop load loaded fl = (asked, Inr loaded') \<Longrightarrow>
     asked = map snd fl \<and> fst ` set loaded' = fst ` set loaded \<union> fst ` set fl
     \<and> (\<forall>p \<in> snd ` set fl. \<exists>d. load p = Inr (JDict d))"
proof (induction fl arbitrary: loaded asked)
  case Nil
  then show ?case by auto
next
  case (Cons a fl)
  obtain c p where a: "a = (c, p)" by (cases a)
  from Cons.prems a obtain d where d: "load p = Inr (JDict d)"
    by (cases "load p"; cases "projr (load p)") (auto)
  obtain asked' r' where rec: "load_loop load (AList.update c d loaded) fl = (asked', r')"
    by (cases "load_loop load (AList.update c d loaded) fl")
  from Cons.prems a d rec have eq: "asked = p # asked'" "r' = Inr loaded'" by auto
  from Cons.IH [OF rec [unfolded eq(2)]] show ?case using a d eq by (auto simp: dom_update)
qed

lemma load_loop_Inl:
  "load_loop load loaded fl = (asked, Inl e) \<Longrightarrow>
     (\<exists>p \<in> snd ` set fl. load p = Inl e) \<or> (e = AssertionError \<and> (\<exists>p \<in> snd ` set fl. \<exists>j. load p = Inr j \<and> (\<forall>d. j \<noteq> JDict d)))"
proof (induction fl arbitrary: loaded asked)
  case Nil
  then show ?case by auto
next
  case (Cons a fl)
  obtain c p where a: "a = (c, p)" by (cases a)
  show ?case
  proof (cases "load p")
    case (Inl e')
    with Cons.prems a show ?thesis by auto
  next
    case (Inr j)
    show ?thesis
    proof (cases "\<exists>d. j = JDict d")
      case True
      then obtain d where d: "j = JDict d" by blast
      obtain asked' r' where rec: "load_loop load (AList.update c d loaded) fl = (asked', r')"
        by (cases "load_loop load (AList.update c d loaded) fl")
      from Cons.prems a Inr d rec have "r' = Inl e" by simp
      with Cons.IH [OF rec [unfolded this]] a show ?thesis by auto
    next
      case False
      with Cons.prems a Inr show ?thesis by (cases j) auto
    qed
  qed
qed

lemma paths_loop_ok:
  assumes "\<forall>c \<in> set ms. map_of mi (last_segment c) \<noteq> None"
  shows "\<exists>tc' mf'. paths_loop language mi tc mf ms = (tc', Inr mf')
     \<and> (\<forall>k. map_of tc' k =
            (if k \<in> set ms \<and> (\<exists>i. map_of mi (last_segment k) = Some i
                                  \<and> component_translation_file k language i = None)
             then Some [] else map_of tc k))
     \<and> (\<forall>k. map_of mf' k =
            (if k \<in> set ms \<and> (\<exists>i. map_of mi (last_segment k) = Some i
                                  \<and> component_translation_file k language i \<noteq> None)
             then component_translation_file k language (the (map_of mi (last_segment k)))
             else map_of mf k))
     \<and> (distinct (map fst mf) \<longrightarrow> distinct (map fst mf'))"
  using assms
proof (induction ms arbitrary: tc mf)
  case Nil
  then show ?case by simp
next
  case (Cons c ms)
  from Cons.prems obtain i where i: "map_of mi (last_segment c) = Some i" by auto
  have rest: "\<forall>c \<in> set ms. map_of mi (last_segment c) \<noteq> None" using Cons.prems by simp
  show ?case
  proof (cases "component_translation_file c language i")
    case None
    have step: "paths_loop language mi tc mf (c # ms)
                  = paths_loop language mi (AList.update c [] tc) mf ms"
      using i None by (simp add: last_segment_def Let_def)
    from Cons.IH [OF rest, of "AList.update c [] tc" mf] show ?thesis
      unfolding step using i None by (auto simp: update_conv') 
  next
    case (Some p)
    have step: "paths_loop language mi tc mf (c # ms)
                  = paths_loop language mi tc (AList.update c p mf) ms"
      using i Some by (simp add: last_segment_def Let_def)
    from Cons.IH [OF rest, of tc "AList.update c p mf"] show ?thesis
      unfolding step using i Some by (auto simp: update_conv' distinct_update)
  qed
qed

lemma backfill_ok:
  "\<forall>c \<in> fst ` set lt. CHR ''.'' \<notin> set c \<longrightarrow> map_of mi c \<noteq> None \<Longrightarrow>
     \<exists>titled. backfill_titles mi lt = Inr titled \<and> map fst titled = map fst lt"
proof (induction lt)
  case Nil
  then show ?case by simp
next
  case (Cons a lt)
  obtain c t where a: "a = (c, t)" by (cases a)
  from Cons obtain titled where t: "backfill_titles mi lt = Inr titled" "map fst titled = map fst lt"
    by auto
  show ?case
  proof (cases "CHR ''.'' \<in> set c \<or> map_of t ''title'' \<noteq> None")
    case True
    then show ?thesis using a t by auto
  next
    case False
    with Cons.prems a obtain i where "map_of mi c = Some i" by auto
    with False a t show ?thesis by auto
  qed
qed

lemma backfill_keys:
  "backfill_titles mi lt = Inr titled \<Longrightarrow> map fst titled = map fst lt"
proof (induction lt arbitrary: titled)
  case Nil
  then show ?case by simp
next
  case (Cons a lt)
  obtain c t where a: "a = (c, t)" by (cases a)
  from Cons.prems a show ?case
    by (auto split: if_splits sum.splits option.splits dest: Cons.IH)
qed

lemma loaded_keys:
  assumes "load_translations_files load mf = (asked, Inr lt)"
    and "backfill_titles mi lt = Inr titled"
  shows "fst ` set titled = fst ` set mf"
proof -
  from load_loop_Inr [of load "[]" mf asked lt] assms(1)
  have "fst ` set lt = fst ` set mf" by (simp add: load_translations_files_def)
  moreover have "fst ` set titled = fst ` set lt"
    using backfill_keys [OF assms(2)] by (metis set_map)
  ultimately show ?thesis by simp
qed

lemma missing_covered:
  assumes "gather_integrations (registry h) (missing_domains h language components) = Inr found"
    and "c \<in> set (missing_ids h language components)"
  shows "\<exists>i. registry h (last_segment c) = Inr i
           \<and> map_of (zip (missing_domains h language components) found) (last_segment c) = Some i"
proof -
  have "last_segment c \<in> set (missing_domains h language components)"
    using assms(2) by (simp add: missing_domains_def)
  with gather_Inr [OF assms(1)] show ?thesis by blast
qed

subsection \<open>The cache fill, case by case\<close>

text \<open>
  What \<open>cache_fill\<close> does, in the four ways it can go: an integration is not
  found; there is no file to load; a file fails to load; all files load. (The two
  look-ups in \<open>missing_integrations\<close> cannot fail.)
\<close>

lemma cache_fill_cases:
  obtains
    (ResolveFail) e where
      "gather_integrations (registry h) (missing_domains h language components) = Inl e"
      "cache_fill h language components =
         (h\<lparr>cache := setdefault language [] (cache h),
            resolutions := resolutions h @ missing_domains h language components\<rparr>, Inl e)"
  | (NoFiles) found tc1 where
      "gather_integrations (registry h) (missing_domains h language components) = Inr found"
      "paths_loop language (zip (missing_domains h language components) found)
         (partition_of (cache h) language) [] (missing_ids h language components) = (tc1, Inr [])"
      "cache_fill h language components =
         (h\<lparr>cache := AList.update language tc1 (setdefault language [] (cache h)),
            resolutions := resolutions h @ missing_domains h language components\<rparr>, Inr tc1)"
  | (LoadFail) found tc1 mf asked e where
      "gather_integrations (registry h) (missing_domains h language components) = Inr found"
      "paths_loop language (zip (missing_domains h language components) found)
         (partition_of (cache h) language) [] (missing_ids h language components) = (tc1, Inr mf)"
      "mf \<noteq> []"
      "load_translations_files (files h) mf = (asked, Inl e)"
      "cache_fill h language components =
         (h\<lparr>cache := AList.update language tc1 (setdefault language [] (cache h)),
            resolutions := resolutions h @ missing_domains h language components,
            loads := loads h @ asked\<rparr>, Inl e)"
  | (Loaded) found tc1 mf lt titled where
      "gather_integrations (registry h) (missing_domains h language components) = Inr found"
      "paths_loop language (zip (missing_domains h language components) found)
         (partition_of (cache h) language) [] (missing_ids h language components) = (tc1, Inr mf)"
      "mf \<noteq> []"
      "load_translations_files (files h) mf = (map snd mf, Inr lt)"
      "backfill_titles (zip (missing_domains h language components) found) lt = Inr titled"
      "cache_fill h language components =
         (h\<lparr>cache := AList.update language (dict_update tc1 titled) (setdefault language [] (cache h)),
            resolutions := resolutions h @ missing_domains h language components,
            loads := loads h @ map snd mf\<rparr>, Inr (dict_update tc1 titled))"
proof -
  let ?ms = "missing_ids h language components"
  let ?ds = "missing_domains h language components"
  let ?tc0 = "partition_of (cache h) language"
  have ms: "filter (\<lambda>c. map_of (partition_of (cache h) language) c = None) components = ?ms"
    by (simp add: missing_ids_def map_of_partition_of)
  have ds: "remdups (map (\<lambda>loaded. last (py_split CHR ''.'' loaded)) ?ms) = ?ds"
    by (simp add: missing_domains_def last_segment_def [abs_def])
  note unfold = cache_fill_def Let_def partition_of_setdefault
  show thesis
  proof (cases "gather_integrations (registry h) ?ds")
    case (Inl e)
    then show thesis using ResolveFail [of e] unfolding unfold ms ds by simp
  next
    case (Inr found)
    have cover: "\<forall>c \<in> set ?ms. map_of (zip ?ds found) (last_segment c) \<noteq> None"
      using missing_covered [OF Inr] by fastforce
    from paths_loop_ok [OF cover, of language ?tc0 "[]"] obtain tc1 mf where
      pl: "paths_loop language (zip ?ds found) ?tc0 [] ?ms = (tc1, Inr mf)"
      and mfk: "\<forall>k. map_of mf k \<noteq> None \<longrightarrow> k \<in> set ?ms"
      by (auto split: if_splits)
    show thesis
    proof (cases "mf = []")
      case True
      then show thesis using NoFiles [of found tc1] Inr pl unfolding unfold ms ds by simp
    next
      case False
      obtain asked lr where ld: "load_translations_files (files h) mf = (asked, lr)"
        by (cases "load_translations_files (files h) mf")
      show thesis
      proof (cases lr)
        case (Inl e)
        then show thesis using LoadFail [of found tc1 mf asked e] Inr pl False ld
          unfolding unfold ms ds by simp
      next
        case r: (Inr lt)
        from load_loop_Inr [of "files h" "[]" mf asked lt] ld r
        have asked: "asked = map snd mf" and keys: "fst ` set lt = fst ` set mf"
          by (auto simp: load_translations_files_def)
        have "\<forall>c \<in> fst ` set lt. CHR ''.'' \<notin> set c \<longrightarrow> map_of (zip ?ds found) c \<noteq> None"
        proof (intro ballI impI)
          fix c assume c: "c \<in> fst ` set lt" and nodot: "CHR ''.'' \<notin> set c"
          from c keys have "map_of mf c \<noteq> None"
            by (metis domIff dom_map_of_conv_image_fst)
          with mfk have "c \<in> set ?ms" by blast
          moreover have "last_segment c = c" using nodot by (simp add: last_segment_def py_split_nodot)
          ultimately show "map_of (zip ?ds found) c \<noteq> None" using cover by fastforce
        qed
        from backfill_ok [OF this] obtain titled where
          t: "backfill_titles (zip ?ds found) lt = Inr titled" by blast
        show thesis
          using Loaded [of found tc1 mf lt titled] Inr pl False ld r asked t
          unfolding unfold ms ds by simp
      qed
    qed
  qed
qed

lemma paths_result:
  assumes g: "gather_integrations (registry h) (missing_domains h language components) = Inr found"
    and pl: "paths_loop language (zip (missing_domains h language components) found)
         (partition_of (cache h) language) [] (missing_ids h language components) = (tc1, Inr mf)"
  shows "\<forall>k. map_of tc1 k =
            (if k \<in> set (missing_ids h language components) \<and> translation_path h language k = None
             then Some [] else cache_lookup (cache h) language k)"
    and "\<forall>k. map_of mf k =
            (if k \<in> set (missing_ids h language components) then translation_path h language k
             else None)"
    and "distinct (map fst mf)"
proof -
  let ?ms = "missing_ids h language components"
  let ?mi = "zip (missing_domains h language components) found"
  have cov: "\<And>c. c \<in> set ?ms \<Longrightarrow> \<exists>i. registry h (last_segment c) = Inr i
                 \<and> map_of ?mi (last_segment c) = Some i"
    using missing_covered [OF g] by blast
  have cover: "\<forall>c \<in> set ?ms. map_of ?mi (last_segment c) \<noteq> None"
    using cov by fastforce
  from paths_loop_ok [OF cover, of language "partition_of (cache h) language" "[]"] pl
  have a: "\<forall>k. map_of tc1 k =
            (if k \<in> set ?ms \<and> (\<exists>i. map_of ?mi (last_segment k) = Some i
                                  \<and> component_translation_file k language i = None)
             then Some [] else map_of (partition_of (cache h) language) k)"
    and b: "\<forall>k. map_of mf k =
            (if k \<in> set ?ms \<and> (\<exists>i. map_of ?mi (last_segment k) = Some i
                                  \<and> component_translation_file k language i \<noteq> None)
             then component_translation_file k language (the (map_of ?mi (last_segment k)))
             else map_of [] k)"
    and c: "distinct (map fst mf)"
    by auto
  show "\<forall>k. map_of tc1 k =
            (if k \<in> set ?ms \<and> translation_path h language k = None
             then Some [] else cache_lookup (cache h) language k)"
  proof
    fix k
    show "map_of tc1 k = (if k \<in> set ?ms \<and> translation_path h language k = None
             then Some [] else cache_lookup (cache h) language k)"
    proof (cases "k \<in> set ?ms")
      case True
      from cov [OF True] obtain i where "registry h (last_segment k) = Inr i"
        "map_of ?mi (last_segment k) = Some i" by blast
      then show ?thesis using a [rule_format, of k] True
        by (simp add: translation_path_def map_of_partition_of)
    next
      case False
      then show ?thesis using a [rule_format, of k] by (simp add: map_of_partition_of)
    qed
  qed
  show "\<forall>k. map_of mf k = (if k \<in> set ?ms then translation_path h language k else None)"
  proof
    fix k
    show "map_of mf k = (if k \<in> set ?ms then translation_path h language k else None)"
    proof (cases "k \<in> set ?ms")
      case True
      from cov [OF True] obtain i where "registry h (last_segment k) = Inr i"
        "map_of ?mi (last_segment k) = Some i" by blast
      then show ?thesis using b [rule_format, of k] True
        by (cases "component_translation_file k language i") (simp_all add: translation_path_def)
    next
      case False
      then show ?thesis using b [rule_format, of k] by simp
    qed
  qed
  show "distinct (map fst mf)" by (rule c)
qed

lemma fst_agcr: "fst (async_get_component_resources h l cs) = fst (cache_fill h l cs)"
  by (simp add: async_get_component_resources_def split: prod.splits sum.splits)

lemma agcr_Inr:
  assumes "async_get_component_resources h language components = (h1, Inr out)"
  obtains tc where "cache_fill h language components = (h1, Inr tc)"
    and "build_resources tc components = Inr out"
  using assms
  by (auto simp: async_get_component_resources_def split: prod.splits sum.splits)

lemma cache_fill_filled:
  assumes part: "map_of (cache h) language = Some tc"
    and all: "\<forall>c \<in> set components. map_of tc c \<noteq> None"
  shows "cache_fill h language components = (h, Inr tc)"
proof -
  have look: "\<And>k. cache_lookup (cache h) language k = map_of tc k"
    using part by (simp add: cache_lookup_def)
  have ms: "missing_ids h language components = []"
    using all by (simp add: missing_ids_def filter_empty_conv look)
  have ds: "missing_domains h language components = []"
    by (simp add: missing_domains_def ms)
  have tc0: "partition_of (cache h) language = tc" using part by (simp add: partition_of_def)
  show ?thesis
  proof (cases rule: cache_fill_cases [of h language components])
    case (ResolveFail e)
    then show ?thesis by (simp add: ds)
  next
    case (NoFiles found tc1)
    from NoFiles(2) have "tc1 = tc" by (simp add: ms tc0)
    then show ?thesis
      using NoFiles(3) by (simp add: ds setdefault_present [OF part] update_same [OF part])
  next
    case (LoadFail found tc1 mf asked e)
    then show ?thesis by (simp add: ms)
  next
    case (Loaded found tc1 mf lt titled)
    then show ?thesis by (simp add: ms)
  qed
qed

lemma cache_fill_returns:
  assumes cf: "cache_fill h language components = (h1, Inr tc)"
  shows "map_of (cache h1) language = Some tc
      \<and> (\<forall>c \<in> set components. map_of tc c \<noteq> None)
      \<and> resolutions h1 = resolutions h @ missing_domains h language components
      \<and> (\<exists>asked. loads h1 = loads h @ asked
             \<and> set asked = {p. \<exists>c \<in> set (missing_ids h language components).
                                   translation_path h language c = Some p})"
proof -
  let ?ms = "missing_ids h language components"
  show ?thesis
  proof (cases rule: cache_fill_cases [of h language components])
    case (ResolveFail e)
    with cf show ?thesis by simp
  next
    case (NoFiles found tc1)
    from cf NoFiles(3)
    have h1: "h1 = h\<lparr>cache := AList.update language tc1 (setdefault language [] (cache h)),
            resolutions := resolutions h @ missing_domains h language components\<rparr>"
      and tc: "tc = tc1" by auto
    note pr = paths_result [OF NoFiles(1,2)]
    have nopath: "\<And>k. k \<in> set ?ms \<Longrightarrow> translation_path h language k = None"
      using pr(2) by (metis map_of.simps(1))
    have all: "\<forall>c \<in> set components. map_of tc c \<noteq> None"
    proof
      fix c assume c: "c \<in> set components"
      show "map_of tc c \<noteq> None"
      proof (cases "c \<in> set ?ms")
        case True
        with nopath [OF True] pr(1) show ?thesis by (simp add: tc)
      next
        case False
        then have "cache_lookup (cache h) language c \<noteq> None"
          using c by (simp add: missing_ids_iff)
        with False pr(1) show ?thesis by (simp add: tc)
      qed
    qed
    have "{p. \<exists>c \<in> set ?ms. translation_path h language c = Some p} = {}"
      using nopath by auto
    then show ?thesis using all by (simp add: h1 tc update_conv')
  next
    case (LoadFail found tc1 mf asked e)
    with cf show ?thesis by simp
  next
    case (Loaded found tc1 mf lt titled)
    from cf Loaded(6)
    have h1: "h1 = h\<lparr>cache := AList.update language (dict_update tc1 titled)
                                       (setdefault language [] (cache h)),
            resolutions := resolutions h @ missing_domains h language components,
            loads := loads h @ map snd mf\<rparr>"
      and tc: "tc = dict_update tc1 titled" by auto
    note pr = paths_result [OF Loaded(1,2)]
    have keys: "fst ` set titled = fst ` set mf" by (rule loaded_keys [OF Loaded(4,5)])
    have all: "\<forall>c \<in> set components. map_of tc c \<noteq> None"
    proof
      fix c assume c: "c \<in> set components"
      show "map_of tc c \<noteq> None"
      proof (cases "c \<in> fst ` set titled")
        case True
        then show ?thesis by (simp add: tc dict_update_present)
      next
        case False
        then have "map_of mf c = None" using keys by (simp add: key_iff_map_of)
        then have np: "c \<in> set ?ms \<Longrightarrow> translation_path h language c = None"
          using pr(2) by simp
        have "map_of tc1 c \<noteq> None"
        proof (cases "c \<in> set ?ms")
          case True
          with np pr(1) show ?thesis by simp
        next
          case False
          then have "cache_lookup (cache h) language c \<noteq> None"
            using c by (simp add: missing_ids_iff)
          with False pr(1) show ?thesis by simp
        qed
        then show ?thesis using False by (simp add: tc dict_update_other)
      qed
    qed
    have "set (map snd mf) = {p. \<exists>c. (c, p) \<in> set mf}" by force
    also have "\<dots> = {p. \<exists>c. map_of mf c = Some p}"
      using pr(3) by simp
    also have "\<dots> = {p. \<exists>c \<in> set ?ms. translation_path h language c = Some p}"
      using pr(2) by auto
    finally have asked: "set (map snd mf)
        = {p. \<exists>c \<in> set ?ms. translation_path h language c = Some p}" .
    show ?thesis using all asked by (simp add: h1 tc update_conv')
  qed
qed

lemma agcr_returns:
  assumes resolved: "\<forall>k \<in> set (missing_ids h language components).
                       \<exists>i. registry h (last_segment k) = Inr i"
    and good: "\<forall>k \<in> set (missing_ids h language components). \<forall>p.
                 translation_path h language k = Some p \<longrightarrow> (\<exists>d. files h p = Inr (JDict d))"
  shows "\<exists>h' out. async_get_component_resources h language components = (h', Inr out)"
proof -
  let ?ms = "missing_ids h language components"
  let ?ds = "missing_domains h language components"
  have "\<forall>d \<in> set ?ds. \<exists>i. registry h d = Inr i"
    using resolved by (auto simp: missing_domains_def)
  from gather_all [OF this] obtain found0 where
    g0: "gather_integrations (registry h) ?ds = Inr found0" by blast
  have fin: "\<exists>h' out. async_get_component_resources h language components = (h', Inr out)"
    if cf: "cache_fill h language components = (h1, Inr tc)" for h1 tc
  proof -
    from cache_fill_returns [OF cf] have "\<forall>c \<in> set components. map_of tc c \<noteq> None" by simp
    from build_resources_lookup [OF this] obtain out where
      "build_resources tc components = Inr out" by blast
    then show ?thesis by (simp add: async_get_component_resources_def cf)
  qed
  show ?thesis
  proof (cases rule: cache_fill_cases [of h language components])
    case (ResolveFail e)
    with g0 show ?thesis by simp
  next
    case (NoFiles found tc1)
    from fin [OF NoFiles(3)] show ?thesis .
  next
    case (LoadFail found tc1 mf asked e)
    note pr = paths_result [OF LoadFail(1,2)]
    from load_loop_Inl [of "files h" "[]" mf asked e] LoadFail(4)
    have "\<exists>p \<in> snd ` set mf. \<forall>d. files h p \<noteq> Inr (JDict d)"
      unfolding load_translations_files_def by (metis sum.inject(2) sum.simps(4))
    then obtain p where p: "p \<in> snd ` set mf" "\<forall>d. files h p \<noteq> Inr (JDict d)"
      by blast
    from p(1) obtain c where "(c, p) \<in> set mf" by auto
    then have "map_of mf c = Some p" using pr(3) by simp
    then have "c \<in> set ?ms" "translation_path h language c = Some p"
      using pr(2) by (auto split: if_splits)
    with good p(2) show ?thesis by blast
  next
    case (Loaded found tc1 mf lt titled)
    from fin [OF Loaded(6)] show ?thesis .
  qed
qed

subsection \<open>The cache only grows\<close>

text \<open>
  C9: whatever a call of \<open>async_get_component_resources\<close> does (also when it
  raises), an entry that the cache held before, for any language and component,
  is still there afterwards with the same tree.
\<close>

theorem C9_cache_append_only:
  assumes "cache_lookup (cache h) language' component = Some t"
  shows "cache_lookup (cache (fst (async_get_component_resources h language components)))
           language' component = Some t"
proof -
  let ?ms = "missing_ids h language components"
  have notmiss: "language' = language \<Longrightarrow> component \<notin> set ?ms"
    using assms by (simp add: missing_ids_iff)
  show ?thesis
  proof (cases rule: cache_fill_cases [of h language components])
    case (ResolveFail e)
    then show ?thesis using assms by (auto simp: fst_agcr cache_lookup_setdefault)
  next
    case (NoFiles found tc1)
    from paths_result(1) [OF NoFiles(1,2)] notmiss assms
    show ?thesis
      by (auto simp: fst_agcr NoFiles(3) cache_lookup_update cache_lookup_setdefault)
  next
    case (LoadFail found tc1 mf asked e)
    from paths_result(1) [OF LoadFail(1,2)] notmiss assms
    show ?thesis
      by (auto simp: fst_agcr LoadFail(5) cache_lookup_update cache_lookup_setdefault)
  next
    case (Loaded found tc1 mf lt titled)
    have "language' = language \<Longrightarrow> component \<notin> fst ` set titled"
      using loaded_keys [OF Loaded(4,5)] paths_result(2) [OF Loaded(1,2)] notmiss
      by (simp add: key_iff_map_of)
    with paths_result(1) [OF Loaded(1,2)] notmiss assms
    show ?thesis
      by (auto simp: fst_agcr Loaded(6) cache_lookup_update cache_lookup_setdefault
            dict_update_other)
  qed
qed

theorem C9_cache_append_only_witness:
  "cache_lookup (cache (fst (async_get_component_resources example_hass ''en'' [''hue''])))
       ''en'' ''hue''
     = Some [(''title'', JStr ''Hue''), (''extra'', JStr ''x''),
             (''state'', JDict [(''on'', JStr ''On'')])]
   \<and> cache_lookup
         (cache (fst (async_get_component_resources
                        (fst (async_get_component_resources example_hass ''en'' [''hue'']))
                        ''en'' [''hue'', ''light.hue''])))
         ''en'' ''hue''
     = Some [(''title'', JStr ''Hue''), (''extra'', JStr ''x''),
             (''state'', JDict [(''on'', JStr ''On'')])]"
proof -
  have h: "cache_lookup (cache (fst (async_get_component_resources example_hass ''en'' [''hue''])))
       ''en'' ''hue''
     = Some [(''title'', JStr ''Hue''), (''extra'', JStr ''x''),
             (''state'', JDict [(''on'', JStr ''On'')])]"
    by code_simp
  show ?thesis
    using h C9_cache_append_only [OF h, of "''en''" "[''hue'', ''light.hue'']"] by simp
qed

subsection \<open>A batch of files is loaded as a whole or not at all\<close>

text \<open>
  C6: let every missing id have its integration found, and let the file of one
  missing id fail to load or not hold a mapping. Then
  \<open>async_get_component_resources\<close> raises (the exception of a \<open>load_json\<close> call,
  or the failed assertion), and the cache differs from the one before only by
  the empty trees of the missing ids that have no translation file; no loaded
  tree is stored.
\<close>

theorem C6_load_all_or_nothing:
  assumes resolved: "\<forall>c \<in> set (missing_ids h language components).
                       \<exists>i. registry h (last_segment c) = Inr i"
    and c: "c \<in> set (missing_ids h language components)"
    and p: "translation_path h language c = Some p"
    and bad: "\<forall>d. files h p \<noteq> Inr (JDict d)"
  shows "\<exists>h' e. async_get_component_resources h language components = (h', Inl e)
           \<and> ((\<exists>q. files h q = Inl e) \<or> e = AssertionError)
           \<and> (\<forall>l k. cache_lookup (cache h') l k =
                  (if l = language \<and> k \<in> set (missing_ids h language components)
                      \<and> translation_path h language k = None
                   then Some [] else cache_lookup (cache h) l k))"
proof -
  let ?ms = "missing_ids h language components"
  let ?ds = "missing_domains h language components"
  have "\<forall>d \<in> set ?ds. \<exists>i. registry h d = Inr i"
    using resolved by (auto simp: missing_domains_def)
  from gather_all [OF this] obtain found0 where g0: "gather_integrations (registry h) ?ds = Inr found0"
    by blast
  have inbatch: "\<And>found tc1 mf. gather_integrations (registry h) ?ds = Inr found \<Longrightarrow>
      paths_loop language (zip ?ds found) (partition_of (cache h) language) [] ?ms = (tc1, Inr mf)
      \<Longrightarrow> p \<in> snd ` set mf"
  proof -
    fix found tc1 mf
    assume g: "gather_integrations (registry h) ?ds = Inr found"
      and pl: "paths_loop language (zip ?ds found) (partition_of (cache h) language) [] ?ms = (tc1, Inr mf)"
    have "map_of mf c = Some p" using paths_result(2) [OF g pl] c p by simp
    then have "(c, p) \<in> set mf" by (rule map_of_SomeD)
    then show "p \<in> snd ` set mf" by force
  qed
  show ?thesis
  proof (cases rule: cache_fill_cases [of h language components])
    case (ResolveFail e)
    with g0 show ?thesis by simp
  next
    case (NoFiles found tc1)
    from inbatch [OF NoFiles(1,2)] show ?thesis by simp
  next
    case (LoadFail found tc1 mf asked e)
    have e: "(\<exists>q. files h q = Inl e) \<or> e = AssertionError"
      using load_loop_Inl [of "files h" "[]" mf asked e] LoadFail(4)
      by (auto simp: load_translations_files_def)
    have "async_get_component_resources h language components =
            (fst (cache_fill h language components), Inl e)"
      by (simp add: async_get_component_resources_def LoadFail(5))
    moreover have "\<forall>l k. cache_lookup (cache (fst (cache_fill h language components))) l k =
                  (if l = language \<and> k \<in> set ?ms \<and> translation_path h language k = None
                   then Some [] else cache_lookup (cache h) l k)"
      using paths_result(1) [OF LoadFail(1,2)]
      by (auto simp: LoadFail(5) cache_lookup_update cache_lookup_setdefault)
    ultimately show ?thesis using e by blast
  next
    case (Loaded found tc1 mf lt titled)
    from load_loop_Inr [of "files h" "[]" mf "map snd mf" lt] Loaded(4)
    have "\<forall>q \<in> snd ` set mf. \<exists>d. files h q = Inr (JDict d)"
      by (simp add: load_translations_files_def)
    with inbatch [OF Loaded(1,2)] bad show ?thesis by blast
  qed
qed

theorem C6_load_all_or_nothing_witness:
  "missing_ids example_hass ''de'' [''my_component'', ''hue'', ''light.hue'']
     = [''my_component'', ''hue'', ''light.hue'']
   \<and> registry example_hass (last_segment ''my_component'') = Inr single_file_integration
   \<and> registry example_hass (last_segment ''hue'') = Inr hue_integration
   \<and> registry example_hass (last_segment ''light.hue'') = Inr hue_integration
   \<and> translation_path example_hass ''de'' ''hue''
       = Some ''components/hue/.translations/de.json''
   \<and> files example_hass ''components/hue/.translations/de.json''
       = Inr (JDict [(''title'', JStr ''Hue (de)'')])
   \<and> translation_path example_hass ''de'' ''light.hue''
       = Some ''components/hue/.translations/light.de.json''
   \<and> files example_hass ''components/hue/.translations/light.de.json'' = Inr (JList [])
   \<and> loads (fst (async_get_component_resources example_hass ''de''
                     [''my_component'', ''hue'', ''light.hue'']))
       = [''components/hue/.translations/de.json'',
          ''components/hue/.translations/light.de.json'']
   \<and> (\<exists>h' e. async_get_component_resources example_hass ''de''
                  [''my_component'', ''hue'', ''light.hue'']
               = (h', Inl e)
         \<and> cache_lookup (cache h') ''de'' ''my_component'' = Some []
         \<and> cache_lookup (cache h') ''de'' ''hue'' = None
         \<and> cache_lookup (cache h') ''de'' ''light.hue'' = None)"
proof -
  let ?cs = "[''my_component'', ''hue'', ''light.hue'']"
  have ms: "missing_ids example_hass ''de'' ?cs = ?cs" by code_simp
  have l1: "last_segment ''my_component'' = ''my_component''" by code_simp
  have l2: "last_segment ''light.hue'' = ''hue''" by code_simp
  have l3: "last_segment ''hue'' = ''hue''" by code_simp
  have r1: "registry example_hass (last_segment ''my_component'') = Inr single_file_integration"
    by (simp add: l1 example_hass_def example_registry_def)
  have r2: "registry example_hass (last_segment ''light.hue'') = Inr hue_integration"
    by (simp add: l2 example_hass_def example_registry_def)
  have r3: "registry example_hass (last_segment ''hue'') = Inr hue_integration"
    by (simp add: l3 example_hass_def example_registry_def)
  have h1: "\<forall>c \<in> set (missing_ids example_hass ''de'' ?cs).
       \<exists>i. registry example_hass (last_segment c) = Inr i"
    unfolding ms using r1 r2 r3 by simp
  have h2: "''light.hue'' \<in> set (missing_ids example_hass ''de'' ?cs)"
    by (simp add: ms)
  have h3: "translation_path example_hass ''de'' ''light.hue''
       = Some ''components/hue/.translations/light.de.json''"
    by code_simp
  have f2: "files example_hass ''components/hue/.translations/light.de.json'' = Inr (JList [])"
    by (simp add: example_hass_def example_files_def)
  have h4: "\<forall>d. files example_hass ''components/hue/.translations/light.de.json'' \<noteq> Inr (JDict d)"
    by (simp add: f2)
  have t1: "translation_path example_hass ''de'' ''my_component'' = None" by code_simp
  have t3: "translation_path example_hass ''de'' ''hue''
       = Some ''components/hue/.translations/de.json''"
    by code_simp
  have f3: "files example_hass ''components/hue/.translations/de.json''
       = Inr (JDict [(''title'', JStr ''Hue (de)'')])"
    by (simp add: example_hass_def example_files_def)
  have c1: "cache_lookup (cache example_hass) ''de'' ''light.hue'' = None" by code_simp
  have c3: "cache_lookup (cache example_hass) ''de'' ''hue'' = None" by code_simp
  have ld: "loads (fst (async_get_component_resources example_hass ''de'' ?cs))
       = [''components/hue/.translations/de.json'',
          ''components/hue/.translations/light.de.json'']"
    by code_simp
  from C6_load_all_or_nothing [OF h1 h2 h3 h4] obtain h' e where
    r: "async_get_component_resources example_hass ''de'' ?cs = (h', Inl e)"
    and c: "\<forall>l k. cache_lookup (cache h') l k =
                  (if l = ''de'' \<and> k \<in> set (missing_ids example_hass ''de'' ?cs)
                      \<and> translation_path example_hass ''de'' k = None
                   then Some [] else cache_lookup (cache example_hass) l k)"
    by blast
  have "cache_lookup (cache h') ''de'' ''my_component'' = Some []"
    using c [rule_format, of "''de''" "''my_component''"] by (simp add: ms t1)
  moreover have "cache_lookup (cache h') ''de'' ''light.hue'' = None"
    using c [rule_format, of "''de''" "''light.hue''"] by (simp add: ms h3 c1)
  moreover have "cache_lookup (cache h') ''de'' ''hue'' = None"
    using c [rule_format, of "''de''" "''hue''"] by (simp add: ms t3 c3)
  ultimately show ?thesis using ms r1 r2 r3 t3 f3 h3 f2 ld r by blast
qed

subsection \<open>A component that is a single file\<close>

lemma ctf_single_file:
  "CHR ''.'' \<notin> set c \<Longrightarrow> path_name (file_path integ) \<noteq> c \<Longrightarrow>
     component_translation_file c language integ = None"
  by (simp add: component_translation_file_def py_split_nodot Let_def)

text \<open>
  C7: for an id \<open>c\<close> without \<open>.\<close> whose integration's directory name differs
  from \<open>c\<close>, and which is not cached yet: \<open>component_translation_file\<close> returns
  \<open>None\<close>; a request for \<open>c\<close> alone succeeds with the empty tree for \<open>c\<close>,
  stores the empty tree and loads no file; and in every request that contains
  \<open>c\<close> and whose integrations are all found, the empty tree is stored for \<open>c\<close>,
  whether or not the files of the other components load, and the request
  succeeds when they do.
\<close>

theorem C7_single_file_component:
  assumes nodot: "CHR ''.'' \<notin> set c"
    and reg: "registry h c = Inr integ"
    and diff: "path_name (file_path integ) \<noteq> c"
    and miss: "cache_lookup (cache h) language c = None"
  shows "component_translation_file c language integ = None
       \<and> (\<exists>h'. async_get_component_resources h language [c] = (h', Inr [(c, [])])
               \<and> cache_lookup (cache h') language c = Some []
               \<and> loads h' = loads h)
       \<and> (\<forall>components.
             c \<in> set components
             \<and> (\<forall>k \<in> set (missing_ids h language components).
                    \<exists>i. registry h (last_segment k) = Inr i)
             \<longrightarrow> cache_lookup (cache (fst (async_get_component_resources h language components)))
                   language c = Some []
                 \<and> ((\<forall>k \<in> set (missing_ids h language components). \<forall>p.
                        translation_path h language k = Some p
                        \<longrightarrow> (\<exists>d. files h p = Inr (JDict d)))
                    \<longrightarrow> (\<exists>h' out. async_get_component_resources h language components
                                     = (h', Inr out))))"
proof -
  have na: "component_translation_file c language integ = None"
    using nodot diff by (rule ctf_single_file)
  have tp: "translation_path h language c = None"
    using na reg nodot by (simp add: translation_path_def last_segment_nodot)
  have marker: "cache_lookup (cache (fst (async_get_component_resources h language components)))
            language c = Some []"
    if a: "c \<in> set components"
      and res: "\<forall>k \<in> set (missing_ids h language components).
                    \<exists>i. registry h (last_segment k) = Inr i"
    for components
  proof -
    let ?ms = "missing_ids h language components"
    let ?ds = "missing_domains h language components"
    have cms: "c \<in> set ?ms" using a miss by (simp add: missing_ids_iff)
    have "\<forall>d \<in> set ?ds. \<exists>i. registry h d = Inr i"
      using res by (auto simp: missing_domains_def)
    from gather_all [OF this] obtain found0 where
      g0: "gather_integrations (registry h) ?ds = Inr found0" by blast
    show ?thesis
    proof (cases rule: cache_fill_cases [of h language components])
      case (ResolveFail e)
      with g0 show ?thesis by simp
    next
      case (NoFiles found tc1)
      from paths_result(1) [OF NoFiles(1,2)] cms tp show ?thesis
        by (simp add: fst_agcr NoFiles(3) cache_lookup_update)
    next
      case (LoadFail found tc1 mf asked e)
      from paths_result(1) [OF LoadFail(1,2)] cms tp show ?thesis
        by (simp add: fst_agcr LoadFail(5) cache_lookup_update)
    next
      case (Loaded found tc1 mf lt titled)
      have "c \<notin> fst ` set titled"
        using loaded_keys [OF Loaded(4,5)] paths_result(2) [OF Loaded(1,2)] tp cms
        by (simp add: key_iff_map_of)
      with paths_result(1) [OF Loaded(1,2)] cms tp show ?thesis
        by (simp add: fst_agcr Loaded(6) cache_lookup_update dict_update_other)
    qed
  qed
  have alone: "\<exists>h'. async_get_component_resources h language [c] = (h', Inr [(c, [])])
               \<and> cache_lookup (cache h') language c = Some []
               \<and> loads h' = loads h"
  proof -
    have ms: "missing_ids h language [c] = [c]" using miss by (simp add: missing_ids_def)
    have ds: "missing_domains h language [c] = [c]"
      by (simp add: missing_domains_def ms last_segment_nodot [OF nodot])
    have g0: "gather_integrations (registry h) (missing_domains h language [c]) = Inr [integ]"
      by (simp add: ds reg)
    have nomf: "mf = []"
      if g: "gather_integrations (registry h) (missing_domains h language [c]) = Inr found"
        and pl: "paths_loop language (zip (missing_domains h language [c]) found)
                   (partition_of (cache h) language) [] (missing_ids h language [c]) = (tc1, Inr mf)"
      for found tc1 mf
    proof -
      have "\<forall>k. map_of mf k = None" using paths_result(2) [OF g pl] tp by (simp add: ms)
      then show "mf = []" by (rule map_of_all_None)
    qed
    show ?thesis
    proof (cases rule: cache_fill_cases [of h language "[c]"])
      case (ResolveFail e)
      with g0 show ?thesis by simp
    next
      case (NoFiles found tc1)
      have tc1: "map_of tc1 c = Some []"
        using paths_result(1) [OF NoFiles(1,2)] tp by (simp add: ms)
      have "build_resources tc1 [c] = Inr [(c, [])]"
        using tc1 nodot by (simp add: build_resources_def component_domain_def dict_update_def)
      then show ?thesis using tc1
        by (simp add: async_get_component_resources_def NoFiles(3) cache_lookup_update)
    next
      case (LoadFail found tc1 mf asked e)
      with nomf [OF LoadFail(1,2)] show ?thesis by simp
    next
      case (Loaded found tc1 mf lt titled)
      with nomf [OF Loaded(1,2)] show ?thesis by simp
    qed
  qed
  show ?thesis
    using na alone marker agcr_returns by blast
qed

theorem C7_single_file_component_witness:
  "CHR ''.'' \<notin> set ''my_component''
   \<and> registry example_hass ''my_component'' = Inr single_file_integration
   \<and> path_name (file_path single_file_integration) \<noteq> ''my_component''
   \<and> cache_lookup (cache example_hass) ''de'' ''my_component'' = None
   \<and> component_translation_file ''my_component'' ''de'' single_file_integration = None
   \<and> (\<exists>h'. async_get_component_resources example_hass ''de'' [''my_component'']
              = (h', Inr [(''my_component'', [])])
          \<and> cache_lookup (cache h') ''de'' ''my_component'' = Some []
          \<and> loads h' = loads example_hass)"
proof -
  have h1: "CHR ''.'' \<notin> set ''my_component''" by simp
  have h2: "registry example_hass ''my_component'' = Inr single_file_integration"
    by (simp add: example_hass_def example_registry_def)
  have h3: "path_name (file_path single_file_integration) \<noteq> ''my_component''"
    by code_simp
  have h4: "cache_lookup (cache example_hass) ''de'' ''my_component'' = None"
    by (simp add: example_hass_def cache_lookup_def)
  show ?thesis
    using h1 h2 h3 h4 C7_single_file_component [OF h1 h2 h3 h4] by blast
qed

subsection \<open>The second of two identical calls\<close>

text \<open>
  C5 as it is written fails: a call that raises stores nothing for the ids it
  could not fill, and the next identical call asks for the integration, or for
  the file, again.
\<close>

theorem C5_failed_call_counterexample:
  "snd (async_get_component_resources example_hass ''nl'' [''zwave''])
     = Inl (IntegrationNotFound ''zwave'')
   \<and> cache_lookup (cache (fst (async_get_component_resources example_hass ''nl'' [''zwave'']))) ''nl'' ''zwave''
     = None
   \<and> resolutions (fst (async_get_component_resources example_hass ''nl'' [''zwave''])) = [''zwave'']
   \<and> resolutions (fst (async_get_component_resources
         (fst (async_get_component_resources example_hass ''nl'' [''zwave''])) ''nl'' [''zwave'']))
     = [''zwave'', ''zwave'']
   \<and> snd (async_get_component_resources example_hass ''nl'' [''light.hue''])
     = Inl (LoadError ''components/hue/.translations/light.nl.json'')
   \<and> loads (fst (async_get_component_resources
         (fst (async_get_component_resources example_hass ''nl'' [''light.hue''])) ''nl'' [''light.hue'']))
     = [''components/hue/.translations/light.nl.json'',
        ''components/hue/.translations/light.nl.json'']"
  by code_simp

text \<open>
  C5, amended: when a call of \<open>async_get_component_resources\<close> returns, an
  identical second call returns the same output and changes nothing: no
  integration is looked up and no file is loaded. After the first call every
  requested id is in the partition of the language, and the first call looked up
  the domains of the missing ids only and loaded the files of the missing ids
  only.
\<close>

theorem C5_second_call_is_silent:
  assumes first: "async_get_component_resources h language components = (h1, Inr out)"
  shows "async_get_component_resources h1 language components = (h1, Inr out)
       \<and> (\<forall>c \<in> set components. cache_lookup (cache h1) language c \<noteq> None)
       \<and> resolutions h1 = resolutions h @ missing_domains h language components
       \<and> (\<exists>asked. loads h1 = loads h @ asked
             \<and> set asked = {p. \<exists>c \<in> set (missing_ids h language components).
                                   translation_path h language c = Some p})"
proof -
  from first obtain tc where cf: "cache_fill h language components = (h1, Inr tc)"
    and br: "build_resources tc components = Inr out" by (rule agcr_Inr)
  note main = cache_fill_returns [OF cf]
  then have part: "map_of (cache h1) language = Some tc"
    and all: "\<forall>c \<in> set components. map_of tc c \<noteq> None" by simp_all
  have "cache_fill h1 language components = (h1, Inr tc)"
    by (rule cache_fill_filled [OF part all])
  then have again: "async_get_component_resources h1 language components = (h1, Inr out)"
    by (simp add: async_get_component_resources_def br)
  have "\<forall>c \<in> set components. cache_lookup (cache h1) language c \<noteq> None"
    using part all by (simp add: cache_lookup_def)
  with again main show ?thesis by simp
qed

theorem C5_second_call_is_silent_witness:
  "snd (async_get_component_resources example_hass ''en'' [''hue'', ''light.hue''])
     = Inr [(''hue'', [(''title'', JStr ''Hue''), (''extra'', JStr ''x''),
                       (''state'', JDict [(''on'', JStr ''On'')])]),
            (''light'', [(''name'', JStr ''Light'')])]
   \<and> async_get_component_resources
         (fst (async_get_component_resources example_hass ''en'' [''hue'', ''light.hue'']))
         ''en'' [''hue'', ''light.hue'']
     = (fst (async_get_component_resources example_hass ''en'' [''hue'', ''light.hue'']),
        Inr [(''hue'', [(''title'', JStr ''Hue''), (''extra'', JStr ''x''),
                        (''state'', JDict [(''on'', JStr ''On'')])]),
             (''light'', [(''name'', JStr ''Light'')])])"
proof -
  have s: "snd (async_get_component_resources example_hass ''en'' [''hue'', ''light.hue''])
     = Inr [(''hue'', [(''title'', JStr ''Hue''), (''extra'', JStr ''x''),
                       (''state'', JDict [(''on'', JStr ''On'')])]),
            (''light'', [(''name'', JStr ''Light'')])]"
    by code_simp
  have h: "async_get_component_resources example_hass ''en'' [''hue'', ''light.hue'']
     = (fst (async_get_component_resources example_hass ''en'' [''hue'', ''light.hue'']),
        Inr [(''hue'', [(''title'', JStr ''Hue''), (''extra'', JStr ''x''),
                        (''state'', JDict [(''on'', JStr ''On'')])]),
             (''light'', [(''name'', JStr ''Light'')])])"
    using s by (simp add: prod_eq_iff)
  show ?thesis using s C5_second_call_is_silent [OF h] by simp
qed

subsection \<open>The fallback language\<close>

lemma distinct_flatten_loop:
  "distinct (map fst out) \<Longrightarrow> distinct (map fst (flatten_loop prefix out data))"
  by (induction prefix out data rule: flatten_loop.induct)
     (simp_all add: distinct_update distinct_dict_update)

lemma distinct_flat_resources: "distinct (map fst (flat_resources category r))"
  unfolding flat_resources_def flatten_def recursive_flatten_def
  by (rule distinct_flatten_loop) simp

text \<open>
  C2: for a language other than \<open>en\<close>, when both fetches return,
  \<open>async_get_translations\<close> returns the flattened English resources updated with
  the flattened resources of the language: its keys are those of either, a key
  of the language has the language's value, any other key the English one.
  For \<open>en\<close> there is one fetch only: the state afterwards is the state after
  that fetch, whatever its outcome, and the result is its flattened resources.
\<close>

theorem C2_fallback_merge:
  "(language \<noteq> ''en''
      \<and> async_get_component_resources (h\<lparr>lock := True\<rparr>) language
            (select_components h integ config_flow) = (h1, Inr resources)
      \<and> async_get_component_resources h1 ''en''
            (select_components h integ config_flow) = (h2, Inr base_resources)
    \<longrightarrow> (\<exists>merged.
           async_get_translations h language category integ config_flow = (h2, Inr merged)
         \<and> merged = dict_update (flat_resources category base_resources)
                                (flat_resources category resources)
         \<and> fst ` set merged = fst ` set (flat_resources category base_resources)
                                 \<union> fst ` set (flat_resources category resources)
         \<and> (\<forall>k. map_of merged k =
                 (case map_of (flat_resources category resources) k of
                    Some v \<Rightarrow> Some v
                  | None \<Rightarrow> map_of (flat_resources category base_resources) k))))
   \<and> (async_get_component_resources (h\<lparr>lock := True\<rparr>) ''en''
            (select_components h integ config_flow) = (h1, Inr resources)
    \<longrightarrow> async_get_translations h ''en'' category integ config_flow
          = (h1, Inr (flat_resources category resources)))
   \<and> fst (async_get_translations h ''en'' category integ config_flow)
       = fst (async_get_component_resources (h\<lparr>lock := True\<rparr>) ''en''
                (select_components h integ config_flow))"
proof -
  have last: "fst (async_get_translations h ''en'' category integ config_flow)
       = fst (async_get_component_resources (h\<lparr>lock := True\<rparr>) ''en''
                (select_components h integ config_flow))"
    by (simp add: async_get_translations_def Let_def split: prod.splits sum.splits)
  show ?thesis
    using last
    by (auto simp: async_get_translations_def Let_def dict_update_keys
        dict_update_lookup [OF distinct_flat_resources])
qed

theorem C2_fallback_merge_witness:
  "''nl'' \<noteq> ''en''
   \<and> snd (async_get_component_resources (example_hass\<lparr>lock := True\<rparr>) ''nl''
            (select_components example_hass (Some ''hue'') None))
       = Inr [(''hue'', [(''title'', JStr ''Licht'')])]
   \<and> snd (async_get_component_resources
            (fst (async_get_component_resources (example_hass\<lparr>lock := True\<rparr>) ''nl''
                    (select_components example_hass (Some ''hue'') None)))
            ''en'' (select_components example_hass (Some ''hue'') None))
       = Inr [(''hue'', [(''title'', JStr ''Hue''), (''extra'', JStr ''x''),
                         (''state'', JDict [(''on'', JStr ''On'')])])]
   \<and> snd (async_get_translations example_hass ''nl'' None (Some ''hue'') None)
       = Inr [(''component.hue.title'', JStr ''Licht''),
              (''component.hue.extra'', JStr ''x''),
              (''component.hue.state.on'', JStr ''On'')]
   \<and> snd (async_get_component_resources (example_hass\<lparr>lock := True\<rparr>) ''en''
            (select_components example_hass (Some ''hue'') None))
       = Inr [(''hue'', [(''title'', JStr ''Hue''), (''extra'', JStr ''x''),
                         (''state'', JDict [(''on'', JStr ''On'')])])]
   \<and> async_get_translations example_hass ''en'' None (Some ''hue'') None
       = (fst (async_get_component_resources (example_hass\<lparr>lock := True\<rparr>) ''en''
                 (select_components example_hass (Some ''hue'') None)),
          Inr [(''component.hue.title'', JStr ''Hue''),
               (''component.hue.extra'', JStr ''x''),
               (''component.hue.state.on'', JStr ''On'')])"
proof -
  let ?cs = "select_components example_hass (Some ''hue'') None"
  let ?h0 = "example_hass\<lparr>lock := True\<rparr>"
  let ?R = "[(''hue'', [(''title'', JStr ''Licht'')])]"
  let ?B = "[(''hue'', [(''title'', JStr ''Hue''), (''extra'', JStr ''x''),
                         (''state'', JDict [(''on'', JStr ''On'')])])]"
  have ne: "''nl'' \<noteq> ''en''" by simp
  have p: "snd (async_get_component_resources ?h0 ''nl'' ?cs) = Inr ?R" by code_simp
  have b: "snd (async_get_component_resources
                  (fst (async_get_component_resources ?h0 ''nl'' ?cs)) ''en'' ?cs) = Inr ?B"
    by code_simp
  have e: "snd (async_get_component_resources ?h0 ''en'' ?cs) = Inr ?B" by code_simp
  have m: "dict_update (flat_resources None ?B) (flat_resources None ?R)
             = [(''component.hue.title'', JStr ''Licht''),
                (''component.hue.extra'', JStr ''x''),
                (''component.hue.state.on'', JStr ''On'')]"
    by code_simp
  have f: "flat_resources None ?B
             = [(''component.hue.title'', JStr ''Hue''),
                (''component.hue.extra'', JStr ''x''),
                (''component.hue.state.on'', JStr ''On'')]"
    by code_simp
  have p': "async_get_component_resources ?h0 ''nl'' ?cs
              = (fst (async_get_component_resources ?h0 ''nl'' ?cs), Inr ?R)"
    using p by (simp add: prod_eq_iff)
  have b': "async_get_component_resources (fst (async_get_component_resources ?h0 ''nl'' ?cs)) ''en'' ?cs
              = (fst (async_get_component_resources
                        (fst (async_get_component_resources ?h0 ''nl'' ?cs)) ''en'' ?cs), Inr ?B)"
    using b by (simp add: prod_eq_iff)
  have e': "async_get_component_resources ?h0 ''en'' ?cs
              = (fst (async_get_component_resources ?h0 ''en'' ?cs), Inr ?B)"
    using e by (simp add: prod_eq_iff)
  note nl = C2_fallback_merge [where language = "''nl''" and h = example_hass
      and integ = "Some ''hue''" and config_flow = None and category = None
      and ?h1.0 = "fst (async_get_component_resources ?h0 ''nl'' ?cs)" and resources = ?R
      and ?h2.0 = "fst (async_get_component_resources
                        (fst (async_get_component_resources ?h0 ''nl'' ?cs)) ''en'' ?cs)"
      and base_resources = ?B, THEN conjunct1, rule_format, OF conjI [OF ne conjI [OF p' b']]]
  note en = C2_fallback_merge [where language = "''nl''" and h = example_hass
      and integ = "Some ''hue''" and config_flow = None and category = None
      and ?h1.0 = "fst (async_get_component_resources ?h0 ''en'' ?cs)" and resources = ?B,
      THEN conjunct2, THEN conjunct1, rule_format, OF e']
  have r1: "snd (async_get_translations example_hass ''nl'' None (Some ''hue'') None)
       = Inr [(''component.hue.title'', JStr ''Licht''),
              (''component.hue.extra'', JStr ''x''),
              (''component.hue.state.on'', JStr ''On'')]"
    using nl m by auto
  show ?thesis using ne p b e r1 en f by simp
qed

subsection \<open>Narrowing to a category\<close>

text \<open>
  C8: \<open>narrow\<close> keeps every domain, in order, and replaces its tree by the one
  entry \<open>{category: tree.get(category) or {}}\<close>: the value of the category when
  the tree has one that Python takes for true, and the empty dictionary when
  the category is absent or its value is \<open>null\<close>, \<open>false\<close>, \<open>0\<close>, the empty
  string, the empty list or the empty dictionary. With a category given,
  \<open>async_get_translations\<close> flattens the narrowed resources under \<open>component\<close>,
  those of the language and those of the fallback; narrowing raises nothing,
  so the call returns whenever the fetches do.
\<close>

theorem C8_category_narrowing:
  "map fst (narrow category r) = map fst r
   \<and> (\<forall>i < length r. snd (narrow category r ! i)
          = [(category,
              (case map_of (snd (r ! i)) category of
                 None \<Rightarrow> JDict []
               | Some JNull \<Rightarrow> JDict []
               | Some (JBool b) \<Rightarrow> if b then JBool True else JDict []
               | Some (JInt n) \<Rightarrow> if n = 0 then JDict [] else JInt n
               | Some (JStr s) \<Rightarrow> if s = [] then JDict [] else JStr s
               | Some (JList l) \<Rightarrow> if l = [] then JDict [] else JList l
               | Some (JDict d) \<Rightarrow> JDict d))])
   \<and> (language \<noteq> ''en''
      \<and> async_get_component_resources (h\<lparr>lock := True\<rparr>) language
            (select_components h integ config_flow) = (h1, Inr resources)
      \<and> async_get_component_resources h1 ''en''
            (select_components h integ config_flow) = (h2, Inr base_resources)
    \<longrightarrow> async_get_translations h language (Some category) integ config_flow
          = (h2, Inr (dict_update
                        (flatten [(''component'',
                                   JDict (map (\<lambda>(domain, t). (domain, JDict t))
                                            (narrow category base_resources)))])
                        (flatten [(''component'',
                                   JDict (map (\<lambda>(domain, t). (domain, JDict t))
                                            (narrow category resources)))]))))
   \<and> (async_get_component_resources (h\<lparr>lock := True\<rparr>) ''en''
            (select_components h integ config_flow) = (h1, Inr resources)
    \<longrightarrow> async_get_translations h ''en'' (Some category) integ config_flow
          = (h1, Inr (flatten [(''component'',
                                JDict (map (\<lambda>(domain, t). (domain, JDict t))
                                         (narrow category resources)))])))"
proof -
  have a: "map fst (narrow category r) = map fst r"
    by (simp add: narrow_def case_prod_beta comp_def)
  have b: "\<forall>i < length r. snd (narrow category r ! i)
          = [(category,
              (case map_of (snd (r ! i)) category of
                 None \<Rightarrow> JDict []
               | Some JNull \<Rightarrow> JDict []
               | Some (JBool b) \<Rightarrow> if b then JBool True else JDict []
               | Some (JInt n) \<Rightarrow> if n = 0 then JDict [] else JInt n
               | Some (JStr s) \<Rightarrow> if s = [] then JDict [] else JStr s
               | Some (JList l) \<Rightarrow> if l = [] then JDict [] else JList l
               | Some (JDict d) \<Rightarrow> JDict d))]"
    by (simp add: narrow_def case_prod_beta split: option.splits json.splits)
  have c: "language \<noteq> ''en''
      \<and> async_get_component_resources (h\<lparr>lock := True\<rparr>) language
            (select_components h integ config_flow) = (h1, Inr resources)
      \<and> async_get_component_resources h1 ''en''
            (select_components h integ config_flow) = (h2, Inr base_resources)
    \<longrightarrow> async_get_translations h language (Some category) integ config_flow
          = (h2, Inr (dict_update
                        (flatten [(''component'',
                                   JDict (map (\<lambda>(domain, t). (domain, JDict t))
                                            (narrow category base_resources)))])
                        (flatten [(''component'',
                                   JDict (map (\<lambda>(domain, t). (domain, JDict t))
                                            (narrow category resources)))])))"
    by (simp add: async_get_translations_def Let_def flat_resources_def)
  have d: "async_get_component_resources (h\<lparr>lock := True\<rparr>) ''en''
            (select_components h integ config_flow) = (h1, Inr resources)
    \<longrightarrow> async_get_translations h ''en'' (Some category) integ config_flow
          = (h1, Inr (flatten [(''component'',
                                JDict (map (\<lambda>(domain, t). (domain, JDict t))
                                         (narrow category resources)))]))"
    by (simp add: async_get_translations_def Let_def flat_resources_def)
  from a b c d show ?thesis by (intro conjI)
qed

theorem C8_category_narrowing_witness:
  "narrow ''state''
       [(''hue'', [(''state'', JDict [(''on'', JStr ''On'')]),
                   (''config'', JDict [(''title'', JStr ''Hue'')])]),
        (''zwave'', [(''config'', JDict [(''title'', JStr ''Z-Wave'')])]),
        (''mqtt'', [(''state'', JDict [])]),
        (''a'', [(''state'', JStr [])]),
        (''b'', [(''state'', JNull)]),
        (''c'', [(''state'', JInt 0)]),
        (''d'', [(''state'', JList [])]),
        (''e'', [(''state'', JBool False)]),
        (''f'', [(''state'', JStr ''text'')])]
     = [(''hue'', [(''state'', JDict [(''on'', JStr ''On'')])]),
        (''zwave'', [(''state'', JDict [])]),
        (''mqtt'', [(''state'', JDict [])]),
        (''a'', [(''state'', JDict [])]),
        (''b'', [(''state'', JDict [])]),
        (''c'', [(''state'', JDict [])]),
        (''d'', [(''state'', JDict [])]),
        (''e'', [(''state'', JDict [])]),
        (''f'', [(''state'', JStr ''text'')])]
   \<and> ''nl'' \<noteq> ''en''
   \<and> snd (async_get_component_resources (example_hass\<lparr>lock := True\<rparr>) ''nl''
            (select_components example_hass (Some ''hue'') None))
       = Inr [(''hue'', [(''title'', JStr ''Licht'')])]
   \<and> snd (async_get_component_resources
            (fst (async_get_component_resources (example_hass\<lparr>lock := True\<rparr>) ''nl''
                    (select_components example_hass (Some ''hue'') None)))
            ''en'' (select_components example_hass (Some ''hue'') None))
       = Inr [(''hue'', [(''title'', JStr ''Hue''), (''extra'', JStr ''x''),
                         (''state'', JDict [(''on'', JStr ''On'')])])]
   \<and> snd (async_get_translations example_hass ''nl'' (Some ''state'') (Some ''hue'') None)
       = Inr [(''component.hue.state.on'', JStr ''On'')]"
proof -
  let ?cs = "select_components example_hass (Some ''hue'') None"
  let ?h0 = "example_hass\<lparr>lock := True\<rparr>"
  let ?R = "[(''hue'', [(''title'', JStr ''Licht'')])]"
  let ?B = "[(''hue'', [(''title'', JStr ''Hue''), (''extra'', JStr ''x''),
                         (''state'', JDict [(''on'', JStr ''On'')])])]"
  let ?ex = "[(''hue'', [(''state'', JDict [(''on'', JStr ''On'')]),
                   (''config'', JDict [(''title'', JStr ''Hue'')])]),
        (''zwave'', [(''config'', JDict [(''title'', JStr ''Z-Wave'')])]),
        (''mqtt'', [(''state'', JDict [])]),
        (''a'', [(''state'', JStr [])]),
        (''b'', [(''state'', JNull)]),
        (''c'', [(''state'', JInt 0)]),
        (''d'', [(''state'', JList [])]),
        (''e'', [(''state'', JBool False)]),
        (''f'', [(''state'', JStr ''text'')])]"
  let ?out = "[(''hue'', [(''state'', JDict [(''on'', JStr ''On'')])]),
        (''zwave'', [(''state'', JDict [])]),
        (''mqtt'', [(''state'', JDict [])]),
        (''a'', [(''state'', JDict [])]),
        (''b'', [(''state'', JDict [])]),
        (''c'', [(''state'', JDict [])]),
        (''d'', [(''state'', JDict [])]),
        (''e'', [(''state'', JDict [])]),
        (''f'', [(''state'', JStr ''text'')])]"
  have ne: "''nl'' \<noteq> ''en''" by simp
  have p: "snd (async_get_component_resources ?h0 ''nl'' ?cs) = Inr ?R" by code_simp
  have b: "snd (async_get_component_resources
                  (fst (async_get_component_resources ?h0 ''nl'' ?cs)) ''en'' ?cs) = Inr ?B"
    by code_simp
  have m: "dict_update
             (flatten [(''component'',
                        JDict (map (\<lambda>(domain, t). (domain, JDict t)) (narrow ''state'' ?B)))])
             (flatten [(''component'',
                        JDict (map (\<lambda>(domain, t). (domain, JDict t)) (narrow ''state'' ?R)))])
             = [(''component.hue.state.on'', JStr ''On'')]"
    by code_simp
  have p': "async_get_component_resources ?h0 ''nl'' ?cs
              = (fst (async_get_component_resources ?h0 ''nl'' ?cs), Inr ?R)"
    using p by (simp add: prod_eq_iff)
  have b': "async_get_component_resources (fst (async_get_component_resources ?h0 ''nl'' ?cs)) ''en'' ?cs
              = (fst (async_get_component_resources
                        (fst (async_get_component_resources ?h0 ''nl'' ?cs)) ''en'' ?cs), Inr ?B)"
    using b by (simp add: prod_eq_iff)
  note inst = C8_category_narrowing [where language = "''nl''" and h = example_hass
      and integ = "Some ''hue''" and config_flow = None and category = "''state''" and r = ?ex
      and ?h1.0 = "fst (async_get_component_resources ?h0 ''nl'' ?cs)" and resources = ?R
      and ?h2.0 = "fst (async_get_component_resources
                        (fst (async_get_component_resources ?h0 ''nl'' ?cs)) ''en'' ?cs)"
      and base_resources = ?B]
  have agt: "snd (async_get_translations example_hass ''nl'' (Some ''state'') (Some ''hue'') None)
       = Inr [(''component.hue.state.on'', JStr ''On'')]"
    using inst [THEN conjunct2, THEN conjunct2, THEN conjunct1] ne p' b' m by simp
  have falsy: "snd (narrow ''state'' ?ex ! 3) = [(''state'', JDict [])]"
    using inst [THEN conjunct2, THEN conjunct1, rule_format, of 3] by simp
  have nar: "narrow ''state'' ?ex = ?out" by code_simp
  show ?thesis using ne p b agt nar falsy by simp
qed

end
